theory Spec2Isabelle
  imports Complex_Main "HOL-Library.Sublist"
begin

section \<open>HTTP vocabulary\<close>

text \<open>
  A Go \<^verbatim>\<open>error\<close> is represented by the text its \<^verbatim>\<open>Error()\<close> method returns; a
  \<^verbatim>\<open>nil\<close> error is \<open>None\<close>. Status codes are Go \<^verbatim>\<open>int\<close>s; no arithmetic is done on
  them, so \<open>int\<close> is exact.
\<close>

type_synonym error = string

definition StatusOK :: int where "StatusOK = 200"
definition StatusBadRequest :: int where "StatusBadRequest = 400"
definition StatusGone :: int where "StatusGone = 410"
definition StatusTooManyRequests :: int where "StatusTooManyRequests = 429"
definition StatusInternalServerError :: int where "StatusInternalServerError = 500"
definition MethodConnect :: string where "MethodConnect = ''CONNECT''"

text \<open>The inbound request: the three fields of \<^verbatim>\<open>*http.Request\<close> the code reads.\<close>

record request =
  Method :: string
  URL_Path :: string
  RemoteAddr :: string

text \<open>
  An outbound request as built by \<^verbatim>\<open>http.NewRequest\<close> and \<^verbatim>\<open>Header.Set\<close>, and the
  response of the remote service. The code reads only \<^verbatim>\<open>resp.StatusCode\<close>; the body is
  closed unread. \<^verbatim>\<open>Header.Set\<close> replaces the values of a header; header names are kept as
  the code writes them.
\<close>

record http_request =
  req_method :: string
  req_url :: string
  req_header :: "(string \<times> string) list"

record http_response =
  StatusCode :: int
  Body :: string

definition Header_Set :: "string \<Rightarrow> string \<Rightarrow> http_request \<Rightarrow> http_request" where
  "Header_Set k v req =
     req\<lparr>req_header := filter (\<lambda>kv. fst kv \<noteq> k) (req_header req) @ [(k, v)]\<rparr>"

text \<open>
  The part of \<^verbatim>\<open>config.Config\<close> the code reads (\<^verbatim>\<open>cfg.ConfigPinningService\<close>).
\<close>

record ConfigPinningService =
  PinningService :: string
  BlockserviceApiKey :: string
  DedicatedGateway :: bool

text \<open>
  A parsed CID, seen through the two methods the code calls on it:
  \<^verbatim>\<open>cid.String()\<close> and \<^verbatim>\<open>cid.Hash().HexString()\<close>.
\<close>

record cid =
  cid_String :: string
  cid_Hash_HexString :: string

section \<open>The token-bucket limiter objects\<close>

text \<open>
  \<^verbatim>\<open>time.Duration\<close> counts nanoseconds. \<^verbatim>\<open>rate.Every\<close> turns an interval between
  events into a rate in events per second; \<^verbatim>\<open>rate.NewLimiter(r, b)\<close> allocates
  \<^verbatim>\<open>&Limiter{limit: r, burst: b}\<close>, every other field zero.
\<close>

type_synonym Duration = int

definition time_Second :: Duration where "time_Second = 1000000000"
definition time_Minute :: Duration where "time_Minute = 60 * time_Second"

datatype Limit = Inf | PerSecond rat

definition Every :: "Duration \<Rightarrow> Limit" where
  "Every interval =
     (if interval \<le> 0 then Inf else PerSecond (1 / (of_int interval / of_int time_Second)))"

record limiter =
  lim_limit :: Limit
  lim_burst :: int
  lim_tokens :: rat
  lim_last :: rat

definition NewLimiter :: "Limit \<Rightarrow> int \<Rightarrow> limiter" where
  "NewLimiter r b = \<lparr>lim_limit = r, lim_burst = b, lim_tokens = 0, lim_last = 0\<rparr>"

text \<open>Go's conversion \<^verbatim>\<open>int(rps)\<close> of a (finite) float: truncation towards zero.\<close>

definition go_int :: "rat \<Rightarrow> int" where
  "go_int x = (if 0 \<le> x then \<lfloor>x\<rfloor> else \<lceil>x\<rceil>)"

section \<open>Collaborators and the shared state\<close>

text \<open>
  The libraries and services the code calls but does not define are parameters:
  \<^verbatim>\<open>cid.Parse\<close>, the URL check inside \<^verbatim>\<open>http.NewRequest\<close>, the remote service behind
  \<^verbatim>\<open>client.Do\<close> (a transport failure is \<open>Inl\<close>), and the token consumption of
  \<^verbatim>\<open>(*rate.Limiter).Allow\<close> at the current time.
\<close>

record env =
  cid_Parse :: "string \<Rightarrow> cid option"
  url_error :: "string \<Rightarrow> error option"
  client_Do :: "http_request \<Rightarrow> error + http_response"
  limiter_Allow :: "limiter \<Rightarrow> bool \<times> limiter"

text \<open>
  The two global maps hold pointers. Limiter objects live in a store, an address is an
  index into it, and a new object is allocated at the end. The call log records, in
  program order, every use of a limiter pool and every call to a collaborator.
\<close>

type_synonym addr = nat

datatype pool = IpPool | CidPool

datatype call =
    GetLimiter string pool rat
  | LimiterAllow addr
  | FindSubmatch string
  | CidParse string
  | ClientDo http_request

record world =
  ipLimiters :: "string \<rightharpoonup> addr"
  cidLimiters :: "string \<rightharpoonup> addr"
  heap :: "limiter list"
  calls :: "call list"

definition record_call :: "call \<Rightarrow> world \<Rightarrow> world" where
  "record_call c w = w\<lparr>calls := calls w @ [c]\<rparr>"

fun limitMap :: "pool \<Rightarrow> world \<Rightarrow> (string \<rightharpoonup> addr)" where
  "limitMap IpPool w = ipLimiters w"
| "limitMap CidPool w = cidLimiters w"

fun limitMap_store :: "pool \<Rightarrow> string \<Rightarrow> addr \<Rightarrow> world \<Rightarrow> world" where
  "limitMap_store IpPool k a w = w\<lparr>ipLimiters := (ipLimiters w)(k \<mapsto> a)\<rparr>"
| "limitMap_store CidPool k a w = w\<lparr>cidLimiters := (cidLimiters w)(k \<mapsto> a)\<rparr>"

section \<open>getLimiter\<close>

text \<open>
  \<^verbatim>\<open>getLimiter(limit, limitMap, rps)\<close>: the map argument is one of the two globals and
  is named by its pool. The mutex makes the body atomic, which a sequential model is.
\<close>

definition getLimiter :: "string \<Rightarrow> pool \<Rightarrow> rat \<Rightarrow> world \<Rightarrow> addr \<times> world" where
  "getLimiter limit p rps w =
     (let w0 = record_call (GetLimiter limit p rps) w in
      case limitMap p w0 limit of
        Some limiter \<Rightarrow> (limiter, w0)
      | None \<Rightarrow>
          (let limiter = length (heap w0);
               w1 = w0\<lparr>heap := heap w0 @ [NewLimiter (Every time_Minute) (go_int rps)]\<rparr>
           in (limiter, limitMap_store p limit limiter w1)))"

text \<open>\<^verbatim>\<open>limiter.Allow()\<close> on the object at an address: the object is updated in place.\<close>

definition Allow :: "env \<Rightarrow> addr \<Rightarrow> world \<Rightarrow> bool \<times> world" where
  "Allow e a w =
     (let (ok, l') = limiter_Allow e (heap w ! a)
      in (ok, record_call (LimiterAllow a) (w\<lparr>heap := (heap w)[a := l']\<rparr>)))"

section \<open>The two policy checks\<close>

definition http_NewRequest :: "env \<Rightarrow> string \<Rightarrow> string \<Rightarrow> error + http_request" where
  "http_NewRequest e m url =
     (case url_error e url of
        Some err \<Rightarrow> Inl err
      | None \<Rightarrow> Inr \<lparr>req_method = m, req_url = url, req_header = []\<rparr>)"

definition getDedicatedGatewayAccess ::
  "env \<Rightarrow> string \<Rightarrow> ConfigPinningService \<Rightarrow> world \<Rightarrow> (int \<times> error option) \<times> world" where
  "getDedicatedGatewayAccess e hash cfg w =
     (let apiUrl = PinningService cfg @ ''/api/dedicatedGateways/'' @ hash in
      case http_NewRequest e ''GET'' apiUrl of
        Inl err \<Rightarrow>
          ((StatusInternalServerError, Some (''failed to create request: '' @ err)), w)
      | Inr req0 \<Rightarrow>
          (let req = Header_Set ''Content-Type'' ''application/json''
                       (Header_Set ''blockservice-API-Key'' (BlockserviceApiKey cfg) req0);
               w1 = record_call (ClientDo req) w
           in case client_Do e req of
                Inl err \<Rightarrow>
                  ((StatusInternalServerError,
                    Some ''Error while calling dedicated gateway API''), w1)
              | Inr resp \<Rightarrow>
                  if StatusCode resp \<noteq> 200
                  then ((StatusCode resp,
                         Some ''No users have subscribed to this hash yet.''), w1)
                  else ((StatusOK, None), w1)))"

definition takedown_message :: string where
  "takedown_message =
     ''The content that you requested has been blocked because of legal, abuse, malware or security reasons. Please contact support@w3ipfs.storage for more information''"

definition checkDmca ::
  "env \<Rightarrow> string \<Rightarrow> ConfigPinningService \<Rightarrow> world \<Rightarrow> (int \<times> error option) \<times> world" where
  "checkDmca e hash cfg w =
     (let apiUrl = PinningService cfg @ ''/api/dmca/'' @ hash in
      case http_NewRequest e ''GET'' apiUrl of
        Inl err \<Rightarrow>
          ((StatusInternalServerError, Some (''failed to create request: '' @ err)), w)
      | Inr req0 \<Rightarrow>
          (let req = Header_Set ''Content-Type'' ''application/json''
                       (Header_Set ''blockservice-API-Key'' (BlockserviceApiKey cfg) req0);
               w1 = record_call (ClientDo req) w
           in case client_Do e req of
                Inl err \<Rightarrow>
                  ((StatusInternalServerError, Some ''Error while calling DMCA API''), w1)
              | Inr resp \<Rightarrow>
                  if StatusCode resp = StatusGone
                  then ((StatusGone, Some takedown_message), w1)
                  else if StatusCode resp \<noteq> 200
                  then ((StatusCode resp, Some ''Something went wrong''), w1)
                  else ((StatusOK, None), w1)))"

section \<open>The path pattern\<close>

text \<open>
  \<^verbatim>\<open>regexp.MustCompile(`/ipfs/([^/]+)`).FindStringSubmatch(path)\<close>: the pattern is not
  anchored, so the leftmost position where it matches is searched for. At a position it
  matches when the text there starts with \<^verbatim>\<open>/ipfs/\<close> followed by at least one
  character other than \<^verbatim>\<open>/\<close>; the greedy group takes the whole run of such characters.
  The result is the whole match and the group, or \<^verbatim>\<open>nil\<close>.
\<close>

definition match_here :: "string \<Rightarrow> string list option" where
  "match_here s =
     (if prefix ''/ipfs/'' s
      then (let seg = takeWhile (\<lambda>c. c \<noteq> CHR ''/'') (drop 6 s)
            in if seg = [] then None else Some [''/ipfs/'' @ seg, seg])
      else None)"

fun FindStringSubmatch :: "string \<Rightarrow> string list option" where
  "FindStringSubmatch [] = match_here []"
| "FindStringSubmatch (c # cs) =
     (case match_here (c # cs) of
        Some m \<Rightarrow> Some m
      | None \<Rightarrow> FindStringSubmatch cs)"

section \<open>DedicatedGatewayMiddleware\<close>

text \<open>
  What the handler does with the response writer: \<^verbatim>\<open>http.Error(w, msg, code)\<close> and
  return, or \<^verbatim>\<open>next.ServeHTTP(w, r)\<close>.
\<close>

datatype outcome = http_Error string int | next_ServeHTTP

definition dedicated_mode ::
  "env \<Rightarrow> ConfigPinningService \<Rightarrow> request \<Rightarrow> world \<Rightarrow> outcome \<times> world" where
  "dedicated_mode e cfg r w =
     (let w1 = record_call (FindSubmatch (URL_Path r)) w in
      case FindStringSubmatch (URL_Path r) of
        None \<Rightarrow> (http_Error ''Invalid path'' StatusBadRequest, w1)
      | Some matches \<Rightarrow>
          if length matches < 2 then (http_Error ''Invalid path'' StatusBadRequest, w1)
          else
            (let w2 = record_call (CidParse (matches ! 1)) w1 in
             case cid_Parse e (matches ! 1) of
               None \<Rightarrow> (http_Error ''Invalid hash'' StatusBadRequest, w2)
             | Some c \<Rightarrow>
                 (case checkDmca e (cid_String c) cfg w2 of
                    ((status, Some err), w3) \<Rightarrow> (http_Error err status, w3)
                  | ((status, None), w3) \<Rightarrow>
                      (case getDedicatedGatewayAccess e (cid_Hash_HexString c) cfg w3 of
                         ((status', Some err), w4) \<Rightarrow> (http_Error err status', w4)
                       | ((status', None), w4) \<Rightarrow> (next_ServeHTTP, w4)))))"

definition open_mode ::
  "env \<Rightarrow> ConfigPinningService \<Rightarrow> request \<Rightarrow> world \<Rightarrow> outcome \<times> world" where
  "open_mode e cfg r w =
     (let (ipLimiter, w1) = getLimiter (RemoteAddr r) IpPool 100 w;
          (ip_ok, w2) = Allow e ipLimiter w1
      in if \<not> ip_ok
         then (http_Error ''Too many requests from this IP'' StatusTooManyRequests, w2)
         else
           (let w3 = record_call (FindSubmatch (URL_Path r)) w2 in
            case FindStringSubmatch (URL_Path r) of
              None \<Rightarrow> (http_Error ''Invalid path'' StatusBadRequest, w3)
            | Some matches \<Rightarrow>
                if length matches < 2 then (http_Error ''Invalid path'' StatusBadRequest, w3)
                else
                  (let w4 = record_call (CidParse (matches ! 1)) w3 in
                   case cid_Parse e (matches ! 1) of
                     None \<Rightarrow> (http_Error ''Invalid hash'' StatusBadRequest, w4)
                   | Some c \<Rightarrow>
                       (let (cidLimiter, w5) = getLimiter (cid_String c) CidPool 15 w4;
                            (cid_ok, w6) = Allow e cidLimiter w5
                        in if \<not> cid_ok
                           then (http_Error ''Too many requests for this CID''
                                   StatusTooManyRequests, w6)
                           else
                             (case checkDmca e (cid_String c) cfg w6 of
                                ((status, Some err), w7) \<Rightarrow> (http_Error err status, w7)
                              | ((status, None), w7) \<Rightarrow> (next_ServeHTTP, w7))))))"

definition DedicatedGatewayMiddleware ::
  "env \<Rightarrow> ConfigPinningService \<Rightarrow> request \<Rightarrow> world \<Rightarrow> outcome \<times> world" where
  "DedicatedGatewayMiddleware e cfg r w =
     (if DedicatedGateway cfg \<and> prefix ''/ipfs/'' (URL_Path r) then dedicated_mode e cfg r w
      else if \<not> DedicatedGateway cfg \<and> prefix ''/ipfs/'' (URL_Path r) then open_mode e cfg r w
      else (next_ServeHTTP, w))"

section \<open>MakeHandler\<close>

text \<open>
  \<^verbatim>\<open>*http.ServeMux\<close> values are pointers into a store of multiplexers; a multiplexer
  is the list of its registered (pattern, handler) entries and
  \<^verbatim>\<open>http.NewServeMux()\<close> allocates an empty one. A \<^verbatim>\<open>ServeOption\<close> receives the
  current multiplexer, may register handlers on any multiplexer or allocate new ones,
  and returns the multiplexer for the options after it, or an error. The node and the
  listener it also receives are the same for every option and are left out.
\<close>

type_synonym mux = nat
type_synonym 'h mux_store = "(string \<times> 'h) list list"
type_synonym 'h ServeOption = "mux \<Rightarrow> 'h mux_store \<Rightarrow> error + (mux \<times> 'h mux_store)"

definition NewServeMux :: "'h mux_store \<Rightarrow> mux \<times> 'h mux_store" where
  "NewServeMux s = (length s, s @ [[]])"

text \<open>What the returned handler does with a request.\<close>

datatype action = WriteHeader int | ServeMux_ServeHTTP mux

definition handler :: "mux \<Rightarrow> request \<Rightarrow> action" where
  "handler topMux r =
     (if Method r = MethodConnect then WriteHeader StatusOK else ServeMux_ServeHTTP topMux)"

text \<open>The \<^verbatim>\<open>for _, option := range options\<close> loop, with its early return.\<close>

fun options_loop ::
  "'h ServeOption list \<Rightarrow> mux \<Rightarrow> 'h mux_store \<Rightarrow> error + (mux \<times> 'h mux_store)" where
  "options_loop [] m s = Inr (m, s)"
| "options_loop (option # rest) m s =
     (case option m s of
        Inl err \<Rightarrow> Inl err
      | Inr (m', s') \<Rightarrow> options_loop rest m' s')"

definition MakeHandler ::
  "'h ServeOption list \<Rightarrow> 'h mux_store \<Rightarrow> error + ((request \<Rightarrow> action) \<times> 'h mux_store)" where
  "MakeHandler options s =
     (let (topMux, s0) = NewServeMux s in
      case options_loop options topMux s0 of
        Inl err \<Rightarrow> Inl err
      | Inr (m, s') \<Rightarrow> Inr (handler topMux, s'))"

text \<open>
  The composition in the words of the specification: a left fold of the options over
  the accumulated multiplexer, where a failed option aborts the composition.
\<close>

definition fold_step ::
  "error + (mux \<times> 'h mux_store) \<Rightarrow> 'h ServeOption \<Rightarrow> error + (mux \<times> 'h mux_store)" where
  "fold_step acc option = (case acc of Inl err \<Rightarrow> Inl err | Inr (m, s) \<Rightarrow> option m s)"

definition fold_options ::
  "'h ServeOption list \<Rightarrow> mux \<times> 'h mux_store \<Rightarrow> error + (mux \<times> 'h mux_store)" where
  "fold_options options fresh = foldl fold_step (Inr fresh) options"

section \<open>Serve\<close>

text \<open>
  \<^verbatim>\<open>Serve\<close> runs the server loop on a goroutine and waits in a \<^verbatim>\<open>select\<close>. What the
  surroundings decide is an input of the model: the results of the set-up calls,
  whether the process is already closing before the server starts, the error
  \<^verbatim>\<open>server.Serve(lis)\<close> returns, which case of the \<^verbatim>\<open>select\<close> fires, and the error
  \<^verbatim>\<open>server.Shutdown(ctx)\<close> returns for a context with the given timeout.
\<close>

definition shutdownTimeout :: Duration where
  "shutdownTimeout = 30 * time_Second"

datatype select_case = serverProc_Closed | Process_Closing

record serving =
  Repo_Config :: "error + ConfigPinningService"
  FromNetAddr :: "error + string"
  closing_at_start :: bool
  server_Serve :: "error option"
  select_fires :: select_case
  server_Shutdown :: "Duration \<Rightarrow> error option"

definition Serve :: "serving \<Rightarrow> 'h ServeOption list \<Rightarrow> 'h mux_store \<Rightarrow> error option" where
  "Serve node options s =
     (case MakeHandler options s of
        Inl err \<Rightarrow> Some err
      | Inr (h, s') \<Rightarrow>
          (case Repo_Config node of
             Inl err \<Rightarrow> Some err
           | Inr cfg \<Rightarrow>
               (case FromNetAddr node of
                  Inl err \<Rightarrow> Some err
                | Inr addr \<Rightarrow>
                    if closing_at_start node
                    then Some ''failed to start server, process closing''
                    else
                      (let serverError = server_Serve node in
                       case select_fires node of
                         serverProc_Closed \<Rightarrow> serverError
                       | Process_Closing \<Rightarrow>
                           (let err = server_Shutdown node shutdownTimeout;
                                serverError = err
                            in serverError)))))"

section \<open>Vocabulary of the properties\<close>

text \<open>The calls a handler run appended to the log.\<close>

definition new_calls :: "world \<Rightarrow> world \<Rightarrow> call list" where
  "new_calls w w' = drop (length (calls w)) (calls w')"

text \<open>
  The request a policy check sends for an endpoint and a resource, and the outbound
  calls one check makes: that request once, or nothing when it could not be built.
\<close>

definition policy_request :: "ConfigPinningService \<Rightarrow> string \<Rightarrow> string \<Rightarrow> http_request" where
  "policy_request cfg endpoint hash =
     \<lparr>req_method = ''GET'', req_url = PinningService cfg @ endpoint @ hash,
      req_header = [(''blockservice-API-Key'', BlockserviceApiKey cfg),
                    (''Content-Type'', ''application/json'')]\<rparr>"

definition dmca_request :: "ConfigPinningService \<Rightarrow> string \<Rightarrow> http_request" where
  "dmca_request cfg hash = policy_request cfg ''/api/dmca/'' hash"

definition access_request :: "ConfigPinningService \<Rightarrow> string \<Rightarrow> http_request" where
  "access_request cfg hash = policy_request cfg ''/api/dedicatedGateways/'' hash"

definition outbound :: "env \<Rightarrow> http_request \<Rightarrow> call list" where
  "outbound e req = (case url_error e (req_url req) of Some err \<Rightarrow> [] | None \<Rightarrow> [ClientDo req])"

text \<open>
  The burst of each pool. The limiter object a pool has for a key before a request: the
  stored one, or the one that will be created with the given burst. Its address: the
  stored one, or the next free one.
\<close>

definition pool_burst :: "pool \<Rightarrow> int" where
  "pool_burst p = (case p of IpPool \<Rightarrow> 100 | CidPool \<Rightarrow> 15)"

definition pool_limiter :: "pool \<Rightarrow> string \<Rightarrow> int \<Rightarrow> world \<Rightarrow> limiter" where
  "pool_limiter p k b w =
     (case limitMap p w k of
        Some a \<Rightarrow> heap w ! a
      | None \<Rightarrow> NewLimiter (PerSecond (1 / 60)) b)"

definition pool_addr :: "pool \<Rightarrow> string \<Rightarrow> world \<Rightarrow> addr" where
  "pool_addr p k w = (case limitMap p w k of Some a \<Rightarrow> a | None \<Rightarrow> length (heap w))"

text \<open>
  The states the program can be in: every pointer in a pool map points into the store,
  and no limiter object is held under two keys or in two pools.
\<close>

definition wf_pools :: "world \<Rightarrow> bool" where
  "wf_pools w \<longleftrightarrow>
     (\<forall>p k a. limitMap p w k = Some a \<longrightarrow> a < length (heap w)) \<and>
     (\<forall>p k p' k' a. limitMap p w k = Some a \<and> limitMap p' w k' = Some a \<longrightarrow> p = p' \<and> k = k')"

definition start_world :: world where
  "start_world = \<lparr>ipLimiters = Map.empty, cidLimiters = Map.empty, heap = [], calls = []\<rparr>"

text \<open>
  The raw token of a path, and the path segment right after the \<^verbatim>\<open>/ipfs/\<close> prefix.
\<close>

definition resource_token :: "string \<Rightarrow> string option" where
  "resource_token path = map_option (\<lambda>matches. matches ! 1) (FindStringSubmatch path)"

definition first_segment :: "string \<Rightarrow> string" where
  "first_segment path = takeWhile (\<lambda>c. c \<noteq> CHR ''/'') (drop 6 path)"

section \<open>Concrete collaborators for the examples\<close>

text \<open>
  A CIDv0 and its multihash in hexadecimal, a parser that knows this one CID, a limiter
  observed at one instant (the bucket of a new limiter is full and no time passes
  between calls), and remote services that fail or answer every request alike.
\<close>

definition readme_cid :: cid where
  "readme_cid =
     \<lparr>cid_String = ''QmYwAPJzv5CZsnA625s3Xf2nemtYgPpHdWEz79ojWnPbdG'',
      cid_Hash_HexString =
        ''12209d6c2be50f706953479ab9df2ce3edca90b68053c00b3004b7f0accbe1e8eedf''\<rparr>"

definition parse_readme :: "string \<Rightarrow> cid option" where
  "parse_readme s = (if s = cid_String readme_cid then Some readme_cid else None)"

definition frozen_bucket :: "limiter \<Rightarrow> bool \<times> limiter" where
  "frozen_bucket l =
     (let t = (if lim_last l = 0 then of_int (lim_burst l) else lim_tokens l)
      in if 1 \<le> t then (True, l\<lparr>lim_tokens := t - 1, lim_last := 1\<rparr>)
         else (False, l\<lparr>lim_tokens := t, lim_last := 1\<rparr>))"

definition closed_bucket :: "limiter \<Rightarrow> bool \<times> limiter" where
  "closed_bucket l = (False, l)"

definition answers :: "int \<Rightarrow> string \<Rightarrow> http_request \<Rightarrow> error + http_response" where
  "answers code body req = Inr \<lparr>StatusCode = code, Body = body\<rparr>"

definition unreachable :: "http_request \<Rightarrow> error + http_response" where
  "unreachable req = Inl ''dial tcp: connection refused''"

definition collaborators ::
  "(limiter \<Rightarrow> bool \<times> limiter) \<Rightarrow> (http_request \<Rightarrow> error + http_response) \<Rightarrow> env" where
  "collaborators allow remote =
     \<lparr>cid_Parse = parse_readme, url_error = (\<lambda>url. None), client_Do = remote,
      limiter_Allow = allow\<rparr>"

definition gateway_cfg :: "bool \<Rightarrow> ConfigPinningService" where
  "gateway_cfg dedicated =
     \<lparr>PinningService = ''http://127.0.0.1:9082'', BlockserviceApiKey = ''key'',
      DedicatedGateway = dedicated\<rparr>"

definition get_request :: "string \<Rightarrow> request" where
  "get_request path = \<lparr>Method = ''GET'', URL_Path = path, RemoteAddr = ''192.0.2.7:51234''\<rparr>"

text \<open>
  Serve options: one that registers a handler on the multiplexer it is given, and one
  that registers a mediating handler and hands a new multiplexer to the options after
  it. A node whose process starts closing while a request is still running for 40
  seconds.
\<close>

definition register :: "string \<Rightarrow> 'h \<Rightarrow> 'h ServeOption" where
  "register pattern h m s = Inr (m, s[m := s ! m @ [(pattern, h)]])"

definition mediate :: "string \<Rightarrow> 'h \<Rightarrow> 'h ServeOption" where
  "mediate pattern h m s =
     (let (child, s1) = NewServeMux s in Inr (child, s1[m := s1 ! m @ [(pattern, h)]]))"

definition gateway_options :: "string ServeOption list" where
  "gateway_options =
     [register ''/version'' ''version'', mediate ''/'' ''hostname'',
      register ''/ipfs/'' ''gateway'']"

definition draining_node :: serving where
  "draining_node =
     \<lparr>Repo_Config = Inr (gateway_cfg False), FromNetAddr = Inr ''/ip4/127.0.0.1/tcp/8080'',
      closing_at_start = False, server_Serve = Some ''http: Server closed'',
      select_fires = Process_Closing,
      server_Shutdown =
        (\<lambda>d. if d < 40 * time_Second then Some ''context deadline exceeded'' else None)\<rparr>"

section \<open>Basic facts\<close>

lemmas http_consts =
  StatusOK_def StatusBadRequest_def StatusGone_def StatusTooManyRequests_def
  StatusInternalServerError_def MethodConnect_def

lemma Every_Minute: "Every time_Minute = PerSecond (1 / 60)"
  by (simp add: Every_def time_Minute_def time_Second_def)

lemma limitMap_record_call [simp]: "limitMap p (record_call c w) = limitMap p w"
  by (cases p) (simp_all add: record_call_def)

lemma heap_record_call [simp]: "heap (record_call c w) = heap w"
  by (simp add: record_call_def)

lemma calls_record_call [simp]: "calls (record_call c w) = calls w @ [c]"
  by (simp add: record_call_def)

lemma limitMap_store_same [simp]:
  "limitMap p (limitMap_store p k a w) = (limitMap p w)(k \<mapsto> a)"
  by (cases p) simp_all

lemma limitMap_store_other [simp]:
  "p' \<noteq> p \<Longrightarrow> limitMap p' (limitMap_store p k a w) = limitMap p' w"
  by (cases p; cases p') simp_all

lemma heap_limitMap_store [simp]: "heap (limitMap_store p k a w) = heap w"
  by (cases p) simp_all

lemma calls_limitMap_store [simp]: "calls (limitMap_store p k a w) = calls w"
  by (cases p) simp_all

lemma limitMap_heap_update [simp]: "limitMap p (w\<lparr>heap := h\<rparr>) = limitMap p w"
  by (cases p) simp_all

lemma limitMap_calls_update [simp]: "limitMap p (w\<lparr>calls := cs\<rparr>) = limitMap p w"
  by (cases p) simp_all

lemma new_calls_append [simp]: "calls w' = calls w @ cs \<Longrightarrow> new_calls w w' = cs"
  by (simp add: new_calls_def)

subsection \<open>The limiter pools\<close>

lemma getLimiter_hit:
  "limitMap p w k = Some a \<Longrightarrow> getLimiter k p rps w = (a, record_call (GetLimiter k p rps) w)"
  by (simp add: getLimiter_def)

lemma getLimiter_miss:
  "limitMap p w k = None \<Longrightarrow>
   getLimiter k p rps w =
     (length (heap w),
      limitMap_store p k (length (heap w))
        ((record_call (GetLimiter k p rps) w)
           \<lparr>heap := heap w @ [NewLimiter (PerSecond (1 / 60)) (go_int rps)]\<rparr>))"
  by (simp add: getLimiter_def Let_def Every_Minute)

text \<open>One look-up followed by one \<^verbatim>\<open>Allow\<close>, as both limiter checks of the handler do.\<close>

lemma pool_step:
  assumes g: "getLimiter k p rps w = (a, w1)" and al: "Allow e a w1 = (ok, w2)"
  shows "a = pool_addr p k w"
    and "ok = fst (limiter_Allow e (pool_limiter p k (go_int rps) w))"
    and "calls w2 = calls w @ [GetLimiter k p rps, LimiterAllow a]"
    and "length (heap w2) = length (heap w) + (if limitMap p w k = None then 1 else 0)"
    and "limitMap p w2 = (limitMap p w)(k \<mapsto> a)"
    and "p' \<noteq> p \<Longrightarrow> limitMap p' w2 = limitMap p' w"
    and "b < length (heap w) \<Longrightarrow> b \<noteq> a \<Longrightarrow> heap w2 ! b = heap w ! b"
proof -
  show "a = pool_addr p k w"
    "ok = fst (limiter_Allow e (pool_limiter p k (go_int rps) w))"
    "calls w2 = calls w @ [GetLimiter k p rps, LimiterAllow a]"
    "length (heap w2) = length (heap w) + (if limitMap p w k = None then 1 else 0)"
    "limitMap p w2 = (limitMap p w)(k \<mapsto> a)"
    using g al
    by (cases "limitMap p w k";
        auto simp: getLimiter_hit getLimiter_miss Allow_def pool_addr_def pool_limiter_def
          split: prod.splits)+
  show "p' \<noteq> p \<Longrightarrow> limitMap p' w2 = limitMap p' w"
    using g al
    by (cases "limitMap p w k";
        auto simp: getLimiter_hit getLimiter_miss Allow_def split: prod.splits)
  show "b < length (heap w) \<Longrightarrow> b \<noteq> a \<Longrightarrow> heap w2 ! b = heap w ! b"
    using g al
    by (cases "limitMap p w k";
        auto simp: getLimiter_hit getLimiter_miss Allow_def nth_append split: prod.splits)
qed

subsection \<open>The path pattern\<close>

lemma match_here_length: "match_here s = Some ms \<Longrightarrow> length ms = 2"
  by (auto simp: match_here_def Let_def split: if_splits)

lemma FindStringSubmatch_length: "FindStringSubmatch s = Some ms \<Longrightarrow> length ms = 2"
  by (induction s) (auto split: option.splits dest: match_here_length)

subsection \<open>The policy checks\<close>

lemma checkDmca_world:
  "snd (checkDmca e h cfg w) = w\<lparr>calls := calls w @ outbound e (dmca_request cfg h)\<rparr>"
  by (simp add: checkDmca_def outbound_def dmca_request_def policy_request_def
      http_NewRequest_def Header_Set_def record_call_def Let_def
      split: option.splits sum.splits)

lemma access_world:
  "snd (getDedicatedGatewayAccess e h cfg w) =
     w\<lparr>calls := calls w @ outbound e (access_request cfg h)\<rparr>"
  by (simp add: getDedicatedGatewayAccess_def outbound_def access_request_def
      policy_request_def http_NewRequest_def Header_Set_def record_call_def Let_def
      split: option.splits sum.splits)

lemma checkDmca_fst: "fst (checkDmca e h cfg w) = fst (checkDmca e h cfg w0)"
  by (simp add: checkDmca_def Let_def split: option.splits sum.splits)

lemma access_fst:
  "fst (getDedicatedGatewayAccess e h cfg w) = fst (getDedicatedGatewayAccess e h cfg w0)"
  by (simp add: getDedicatedGatewayAccess_def Let_def split: option.splits sum.splits)

lemma checkDmca_split:
  "checkDmca e h cfg w1 =
     (fst (checkDmca e h cfg w), w1\<lparr>calls := calls w1 @ outbound e (dmca_request cfg h)\<rparr>)"
  using checkDmca_world [of e h cfg w1] checkDmca_fst [of e h cfg w1 w]
  by (metis prod.collapse)

lemma access_split:
  "getDedicatedGatewayAccess e h cfg w1 =
     (fst (getDedicatedGatewayAccess e h cfg w),
      w1\<lparr>calls := calls w1 @ outbound e (access_request cfg h)\<rparr>)"
  using access_world [of e h cfg w1] access_fst [of e h cfg w1 w]
  by (metis prod.collapse)

text \<open>The verdict of each check as a function of what the remote service does.\<close>

lemma checkDmca_verdict:
  "fst (checkDmca e h cfg w) =
     (case url_error e (req_url (dmca_request cfg h)) of
        Some err \<Rightarrow> (500, Some (''failed to create request: '' @ err))
      | None \<Rightarrow>
          (case client_Do e (dmca_request cfg h) of
             Inl err \<Rightarrow> (500, Some ''Error while calling DMCA API'')
           | Inr resp \<Rightarrow>
               if StatusCode resp = 410 then (410, Some takedown_message)
               else if StatusCode resp \<noteq> 200
               then (StatusCode resp, Some ''Something went wrong'')
               else (200, None)))"
  by (simp add: checkDmca_def dmca_request_def policy_request_def http_NewRequest_def
      Header_Set_def Let_def http_consts split: option.splits sum.splits)

lemma access_verdict:
  "fst (getDedicatedGatewayAccess e h cfg w) =
     (case url_error e (req_url (access_request cfg h)) of
        Some err \<Rightarrow> (500, Some (''failed to create request: '' @ err))
      | None \<Rightarrow>
          (case client_Do e (access_request cfg h) of
             Inl err \<Rightarrow> (500, Some ''Error while calling dedicated gateway API'')
           | Inr resp \<Rightarrow>
               if StatusCode resp \<noteq> 200
               then (StatusCode resp, Some ''No users have subscribed to this hash yet.'')
               else (200, None)))"
  by (simp add: getDedicatedGatewayAccess_def access_request_def policy_request_def
      http_NewRequest_def Header_Set_def Let_def http_consts split: option.splits sum.splits)

lemma dmca_request_inj: "dmca_request cfg h = dmca_request cfg h' \<Longrightarrow> h = h'"
  by (simp add: dmca_request_def policy_request_def)

lemma access_request_inj: "access_request cfg h = access_request cfg h' \<Longrightarrow> h = h'"
  by (simp add: access_request_def policy_request_def)

lemma dmca_not_access: "dmca_request cfg h \<noteq> access_request cfg h'"
  by (simp add: dmca_request_def access_request_def policy_request_def)

lemma outbound_cases: "outbound e req = [] \<or> outbound e req = [ClientDo req]"
  by (simp add: outbound_def split: option.splits)

subsection \<open>The two modes of the handler\<close>

lemma dedicated_mode_eq:
  "dedicated_mode e cfg r w =
     (case resource_token (URL_Path r) of
        None \<Rightarrow>
          (http_Error ''Invalid path'' 400, w\<lparr>calls := calls w @ [FindSubmatch (URL_Path r)]\<rparr>)
      | Some tok \<Rightarrow>
          (case cid_Parse e tok of
             None \<Rightarrow>
               (http_Error ''Invalid hash'' 400,
                w\<lparr>calls := calls w @ [FindSubmatch (URL_Path r), CidParse tok]\<rparr>)
           | Some c \<Rightarrow>
               (case fst (checkDmca e (cid_String c) cfg w) of
                  (st, Some err) \<Rightarrow>
                    (http_Error err st,
                     w\<lparr>calls := calls w @ [FindSubmatch (URL_Path r), CidParse tok] @
                        outbound e (dmca_request cfg (cid_String c))\<rparr>)
                | (st, None) \<Rightarrow>
                    (case fst (getDedicatedGatewayAccess e (cid_Hash_HexString c) cfg w) of
                       (st', Some err) \<Rightarrow>
                         (http_Error err st',
                          w\<lparr>calls := calls w @ [FindSubmatch (URL_Path r), CidParse tok] @
                            outbound e (dmca_request cfg (cid_String c)) @
                            outbound e (access_request cfg (cid_Hash_HexString c))\<rparr>)
                     | (st', None) \<Rightarrow>
                         (next_ServeHTTP,
                          w\<lparr>calls := calls w @ [FindSubmatch (URL_Path r), CidParse tok] @
                            outbound e (dmca_request cfg (cid_String c)) @
                            outbound e (access_request cfg (cid_Hash_HexString c))\<rparr>)))))"
proof (cases "FindStringSubmatch (URL_Path r)")
  case None
  then show ?thesis
    by (simp add: dedicated_mode_def resource_token_def record_call_def http_consts)
next
  case (Some ms)
  then have len: "length ms = 2" by (rule FindStringSubmatch_length)
  show ?thesis
    unfolding dedicated_mode_def resource_token_def Let_def
    apply (subst checkDmca_split [where w = w])
    apply (subst access_split [where w = w])
    by (simp add: Some len record_call_def http_consts split: option.splits prod.splits)
qed

lemma dedicated_mode_cases
  [consumes 1, case_names bad_path bad_hash moderated no_access forwarded]:
  assumes run: "dedicated_mode e cfg r w = (out, w')"
  obtains
    (bad_path)
      "resource_token (URL_Path r) = None"
      "out = http_Error ''Invalid path'' 400"
      "w' = w\<lparr>calls := calls w @ [FindSubmatch (URL_Path r)]\<rparr>"
  | (bad_hash) tok where
      "resource_token (URL_Path r) = Some tok" "cid_Parse e tok = None"
      "out = http_Error ''Invalid hash'' 400"
      "w' = w\<lparr>calls := calls w @ [FindSubmatch (URL_Path r), CidParse tok]\<rparr>"
  | (moderated) tok c st err where
      "resource_token (URL_Path r) = Some tok" "cid_Parse e tok = Some c"
      "fst (checkDmca e (cid_String c) cfg w) = (st, Some err)"
      "out = http_Error err st"
      "w' = w\<lparr>calls := calls w @ [FindSubmatch (URL_Path r), CidParse tok] @
         outbound e (dmca_request cfg (cid_String c))\<rparr>"
  | (no_access) tok c st st' err where
      "resource_token (URL_Path r) = Some tok" "cid_Parse e tok = Some c"
      "fst (checkDmca e (cid_String c) cfg w) = (st, None)"
      "fst (getDedicatedGatewayAccess e (cid_Hash_HexString c) cfg w) = (st', Some err)"
      "out = http_Error err st'"
      "w' = w\<lparr>calls := calls w @ [FindSubmatch (URL_Path r), CidParse tok] @
         outbound e (dmca_request cfg (cid_String c)) @
         outbound e (access_request cfg (cid_Hash_HexString c))\<rparr>"
  | (forwarded) tok c st st' where
      "resource_token (URL_Path r) = Some tok" "cid_Parse e tok = Some c"
      "fst (checkDmca e (cid_String c) cfg w) = (st, None)"
      "fst (getDedicatedGatewayAccess e (cid_Hash_HexString c) cfg w) = (st', None)"
      "out = next_ServeHTTP"
      "w' = w\<lparr>calls := calls w @ [FindSubmatch (URL_Path r), CidParse tok] @
         outbound e (dmca_request cfg (cid_String c)) @
         outbound e (access_request cfg (cid_Hash_HexString c))\<rparr>"
proof (cases "resource_token (URL_Path r)")
  case None
  with run show thesis
    by (intro bad_path) (auto simp: dedicated_mode_eq)
next
  case (Some tok)
  note tk = this
  show thesis
  proof (cases "cid_Parse e tok")
    case None
    with run tk show thesis
      by (intro bad_hash [of tok]) (auto simp: dedicated_mode_eq)
  next
    case (Some c)
    note parsed = this
    obtain st m where v: "fst (checkDmca e (cid_String c) cfg w) = (st, m)"
      by (cases "fst (checkDmca e (cid_String c) cfg w)")
    obtain st' m' where v':
      "fst (getDedicatedGatewayAccess e (cid_Hash_HexString c) cfg w) = (st', m')"
      by (cases "fst (getDedicatedGatewayAccess e (cid_Hash_HexString c) cfg w)")
    show thesis
    proof (cases m)
      case (Some err)
      with run tk parsed v show thesis
        by (intro moderated [of tok c st err]) (auto simp: dedicated_mode_eq)
    next
      case None
      note passed = this
      show thesis
      proof (cases m')
        case (Some err)
        with run tk parsed v v' passed show thesis
          by (intro no_access [of tok c st st' err]) (auto simp: dedicated_mode_eq)
      next
        case None
        with run tk parsed v v' passed show thesis
          by (intro forwarded [of tok c st st']) (auto simp: dedicated_mode_eq)
      qed
    qed
  qed
qed

lemma open_mode_cases [consumes 1, case_names ip_denied bad_path bad_hash cid_denied moderated forwarded]:
  assumes run: "open_mode e cfg r w = (out, w')"
  obtains
    (ip_denied) a w1 w2 where
      "getLimiter (RemoteAddr r) IpPool 100 w = (a, w1)" "Allow e a w1 = (False, w2)"
      "out = http_Error ''Too many requests from this IP'' 429" "w' = w2"
  | (bad_path) a w1 w2 where
      "getLimiter (RemoteAddr r) IpPool 100 w = (a, w1)" "Allow e a w1 = (True, w2)"
      "resource_token (URL_Path r) = None"
      "out = http_Error ''Invalid path'' 400" "w' = record_call (FindSubmatch (URL_Path r)) w2"
  | (bad_hash) a w1 w2 tok where
      "getLimiter (RemoteAddr r) IpPool 100 w = (a, w1)" "Allow e a w1 = (True, w2)"
      "resource_token (URL_Path r) = Some tok" "cid_Parse e tok = None"
      "out = http_Error ''Invalid hash'' 400"
      "w' = record_call (CidParse tok) (record_call (FindSubmatch (URL_Path r)) w2)"
  | (cid_denied) a w1 w2 tok c a' w5 w6 where
      "getLimiter (RemoteAddr r) IpPool 100 w = (a, w1)" "Allow e a w1 = (True, w2)"
      "resource_token (URL_Path r) = Some tok" "cid_Parse e tok = Some c"
      "getLimiter (cid_String c) CidPool 15
         (record_call (CidParse tok) (record_call (FindSubmatch (URL_Path r)) w2)) = (a', w5)"
      "Allow e a' w5 = (False, w6)"
      "out = http_Error ''Too many requests for this CID'' 429" "w' = w6"
  | (moderated) a w1 w2 tok c a' w5 w6 st err where
      "getLimiter (RemoteAddr r) IpPool 100 w = (a, w1)" "Allow e a w1 = (True, w2)"
      "resource_token (URL_Path r) = Some tok" "cid_Parse e tok = Some c"
      "getLimiter (cid_String c) CidPool 15
         (record_call (CidParse tok) (record_call (FindSubmatch (URL_Path r)) w2)) = (a', w5)"
      "Allow e a' w5 = (True, w6)"
      "fst (checkDmca e (cid_String c) cfg w) = (st, Some err)"
      "out = http_Error err st"
      "w' = w6\<lparr>calls := calls w6 @ outbound e (dmca_request cfg (cid_String c))\<rparr>"
  | (forwarded) a w1 w2 tok c a' w5 w6 st where
      "getLimiter (RemoteAddr r) IpPool 100 w = (a, w1)" "Allow e a w1 = (True, w2)"
      "resource_token (URL_Path r) = Some tok" "cid_Parse e tok = Some c"
      "getLimiter (cid_String c) CidPool 15
         (record_call (CidParse tok) (record_call (FindSubmatch (URL_Path r)) w2)) = (a', w5)"
      "Allow e a' w5 = (True, w6)"
      "fst (checkDmca e (cid_String c) cfg w) = (st, None)"
      "out = next_ServeHTTP"
      "w' = w6\<lparr>calls := calls w6 @ outbound e (dmca_request cfg (cid_String c))\<rparr>"
proof -
  obtain a w1 where g: "getLimiter (RemoteAddr r) IpPool 100 w = (a, w1)"
    by (cases "getLimiter (RemoteAddr r) IpPool 100 w")
  obtain ip_ok w2 where al: "Allow e a w1 = (ip_ok, w2)"
    by (cases "Allow e a w1")
  show thesis
  proof (cases ip_ok)
    case False
    with run g al show thesis
      by (intro ip_denied [of a w1 w2]) (simp_all add: open_mode_def http_consts)
  next
    case True
    note ok = this
    show thesis
    proof (cases "FindStringSubmatch (URL_Path r)")
      case None
      with run g al ok show thesis
        by (intro bad_path [of a w1 w2]) (simp_all add: open_mode_def resource_token_def http_consts)
    next
      case (Some ms)
      then have len: "length ms = 2" by (rule FindStringSubmatch_length)
      define tok where "tok = ms ! 1"
      have tk: "resource_token (URL_Path r) = Some tok"
        by (simp add: resource_token_def Some tok_def)
      define w4 where "w4 = record_call (CidParse tok) (record_call (FindSubmatch (URL_Path r)) w2)"
      show thesis
      proof (cases "cid_Parse e tok")
        case None
        with run g al ok Some len tk show thesis
          by (intro bad_hash [of a w1 w2 tok]) (simp_all add: open_mode_def tok_def http_consts)
      next
        case (Some c)
        note parsed = this
        obtain a' w5 where g': "getLimiter (cid_String c) CidPool 15 w4 = (a', w5)"
          by (cases "getLimiter (cid_String c) CidPool 15 w4")
        obtain cid_ok w6 where al': "Allow e a' w5 = (cid_ok, w6)"
          by (cases "Allow e a' w5")
        have body: "open_mode e cfg r w =
            (if \<not> cid_ok then (http_Error ''Too many requests for this CID'' 429, w6)
             else (case checkDmca e (cid_String c) cfg w6 of
                     ((status, Some err), w7) \<Rightarrow> (http_Error err status, w7)
                   | ((status, None), w7) \<Rightarrow> (next_ServeHTTP, w7)))"
          using g al ok \<open>FindStringSubmatch (URL_Path r) = Some ms\<close> len parsed g' al'
          by (simp add: open_mode_def tok_def w4_def http_consts)
        show thesis
        proof (cases cid_ok)
          case False
          with run body g al ok tk parsed g' al' show thesis
            by (intro cid_denied [of a w1 w2 tok c a' w5 w6]) (simp_all add: w4_def)
        next
          case True
          obtain st err where v: "fst (checkDmca e (cid_String c) cfg w) = (st, err)"
            by (cases "fst (checkDmca e (cid_String c) cfg w)")
          have cd: "checkDmca e (cid_String c) cfg w6 =
              ((st, err), w6\<lparr>calls := calls w6 @ outbound e (dmca_request cfg (cid_String c))\<rparr>)"
            using checkDmca_split [of e "cid_String c" cfg w6 w] v by simp
          show thesis
          proof (cases err)
            case None
            with run body True v cd g al ok tk parsed g' al' show thesis
              by (intro forwarded [of a w1 w2 tok c a' w5 w6 st]) (simp_all add: w4_def)
          next
            case (Some msg)
            with run body True v cd g al ok tk parsed g' al' show thesis
              by (intro moderated [of a w1 w2 tok c a' w5 w6 st msg]) (simp_all add: w4_def)
          qed
        qed
      qed
    qed
  qed
qed

subsection \<open>Handler composition\<close>

lemma fold_step_stuck: "foldl fold_step (Inl err) options = Inl err"
  by (induction options) (simp_all add: fold_step_def)

lemma options_loop_fold: "options_loop options m s = fold_options options (m, s)"
proof (induction options arbitrary: m s)
  case Nil
  show ?case by (simp add: fold_options_def)
next
  case (Cons option rest)
  show ?case
  proof (cases "option m s")
    case (Inl err)
    then show ?thesis by (simp add: fold_options_def fold_step_def fold_step_stuck)
  next
    case (Inr ms)
    then show ?thesis
      using Cons.IH [of "fst ms" "snd ms"]
      by (cases ms) (simp add: fold_options_def fold_step_def)
  qed
qed

lemma gateway_options_run:
  "MakeHandler gateway_options [] =
     Inr (handler 0,
          [[(''/version'', ''version''), (''/'', ''hostname'')], [(''/ipfs/'', ''gateway'')]])"
  by (simp add: MakeHandler_def gateway_options_def register_def mediate_def NewServeMux_def)

subsection \<open>Traces and the invariant of the pools\<close>

lemma open_mode_trace
  [consumes 1, case_names ip_denied bad_path bad_hash cid_denied moderated forwarded]:
  assumes run: "open_mode e cfg r w = (out, w')"
  obtains
    (ip_denied) a where
      "out = http_Error ''Too many requests from this IP'' 429"
      "calls w' = calls w @ [GetLimiter (RemoteAddr r) IpPool 100, LimiterAllow a]"
  | (bad_path) a where
      "resource_token (URL_Path r) = None"
      "out = http_Error ''Invalid path'' 400"
      "calls w' = calls w @
         [GetLimiter (RemoteAddr r) IpPool 100, LimiterAllow a, FindSubmatch (URL_Path r)]"
  | (bad_hash) a tok where
      "resource_token (URL_Path r) = Some tok" "cid_Parse e tok = None"
      "out = http_Error ''Invalid hash'' 400"
      "calls w' = calls w @
         [GetLimiter (RemoteAddr r) IpPool 100, LimiterAllow a, FindSubmatch (URL_Path r),
          CidParse tok]"
  | (cid_denied) a tok c a' where
      "resource_token (URL_Path r) = Some tok" "cid_Parse e tok = Some c"
      "out = http_Error ''Too many requests for this CID'' 429"
      "calls w' = calls w @
         [GetLimiter (RemoteAddr r) IpPool 100, LimiterAllow a, FindSubmatch (URL_Path r),
          CidParse tok, GetLimiter (cid_String c) CidPool 15, LimiterAllow a']"
  | (moderated) a tok c a' st err where
      "resource_token (URL_Path r) = Some tok" "cid_Parse e tok = Some c"
      "fst (checkDmca e (cid_String c) cfg w) = (st, Some err)"
      "out = http_Error err st"
      "calls w' = calls w @
         [GetLimiter (RemoteAddr r) IpPool 100, LimiterAllow a, FindSubmatch (URL_Path r),
          CidParse tok, GetLimiter (cid_String c) CidPool 15, LimiterAllow a'] @
         outbound e (dmca_request cfg (cid_String c))"
  | (forwarded) a tok c a' st where
      "resource_token (URL_Path r) = Some tok" "cid_Parse e tok = Some c"
      "fst (checkDmca e (cid_String c) cfg w) = (st, None)"
      "out = next_ServeHTTP"
      "calls w' = calls w @
         [GetLimiter (RemoteAddr r) IpPool 100, LimiterAllow a, FindSubmatch (URL_Path r),
          CidParse tok, GetLimiter (cid_String c) CidPool 15, LimiterAllow a'] @
         outbound e (dmca_request cfg (cid_String c))"
  using run
proof (cases rule: open_mode_cases)
  case (ip_denied a w1 w2)
  then show ?thesis
    using pool_step(3) [of "RemoteAddr r" IpPool 100 w a w1 e False w2]
    by (intro that(1) [of a]) simp_all
next
  case (bad_path a w1 w2)
  then show ?thesis
    using pool_step(3) [of "RemoteAddr r" IpPool 100 w a w1 e True w2]
    by (intro that(2) [of a]) simp_all
next
  case (bad_hash a w1 w2 tok)
  then show ?thesis
    using pool_step(3) [of "RemoteAddr r" IpPool 100 w a w1 e True w2]
    by (intro that(3) [of tok a]) simp_all
next
  case (cid_denied a w1 w2 tok c a' w5 w6)
  then show ?thesis
    using pool_step(3) [of "RemoteAddr r" IpPool 100 w a w1 e True w2]
      pool_step(3) [OF cid_denied(5,6)]
    by (intro that(4) [of tok c a a']) simp_all
next
  case (moderated a w1 w2 tok c a' w5 w6 st err)
  then show ?thesis
    using pool_step(3) [of "RemoteAddr r" IpPool 100 w a w1 e True w2]
      pool_step(3) [OF moderated(5,6)]
    by (intro that(5) [of tok c st err a a']) simp_all
next
  case (forwarded a w1 w2 tok c a' w5 w6 st)
  then show ?thesis
    using pool_step(3) [of "RemoteAddr r" IpPool 100 w a w1 e True w2]
      pool_step(3) [OF forwarded(5,6)]
    by (intro that(6) [of tok c st a a']) simp_all
qed

lemma middleware_modes:
  "DedicatedGatewayMiddleware e cfg r w =
     (if prefix ''/ipfs/'' (URL_Path r)
      then (if DedicatedGateway cfg then dedicated_mode e cfg r w else open_mode e cfg r w)
      else (next_ServeHTTP, w))"
  by (simp add: DedicatedGatewayMiddleware_def)

lemma ClientDo_in_outbound:
  "ClientDo req \<in> set (outbound e req') \<longleftrightarrow> req = req' \<and> url_error e (req_url req') = None"
  by (auto simp: outbound_def split: option.splits)

lemma go_int_bursts: "go_int 100 = 100" "go_int 15 = 15"
  by (simp_all add: go_int_def)

lemma pool_limiter_record_call [simp]:
  "pool_limiter p k b (record_call c w) = pool_limiter p k b w"
  by (simp add: pool_limiter_def split: option.splits)

lemma wf_poolsD:
  assumes "wf_pools w" and "limitMap p w k = Some a"
  shows "a < length (heap w)" and "limitMap p' w k' = Some a \<Longrightarrow> p' = p \<and> k' = k"
  using assms unfolding wf_pools_def by blast+

text \<open>A look-up and an \<^verbatim>\<open>Allow\<close> in one pool leave the limiters of the other pool alone.\<close>

lemma pool_limiter_other_pool:
  assumes wf: "wf_pools w"
      and g: "getLimiter k p rps w = (a, w1)" and al: "Allow e a w1 = (ok, w2)"
      and other: "p' \<noteq> p"
  shows "pool_limiter p' k' b w2 = pool_limiter p' k' b w"
proof (cases "limitMap p' w k'")
  case None
  with pool_step(6) [OF g al other] show ?thesis
    by (simp add: pool_limiter_def)
next
  case (Some b0)
  from wf_poolsD(1) [OF wf Some] have range: "b0 < length (heap w)" .
  have "b0 \<noteq> a"
  proof (cases "limitMap p w k")
    case None
    with pool_step(1) [OF g al] range show ?thesis
      by (simp add: pool_addr_def)
  next
    case (Some a0)
    with pool_step(1) [OF g al] have "limitMap p w k = Some a"
      by (simp add: pool_addr_def)
    with wf_poolsD(2) [OF wf \<open>limitMap p' w k' = Some b0\<close>, of p k] other show ?thesis
      by auto
  qed
  with pool_step(7) [OF g al range] pool_step(6) [OF g al other] Some show ?thesis
    by (simp add: pool_limiter_def)
qed

lemma wf_record_call [simp]: "wf_pools (record_call c w) = wf_pools w"
  by (simp add: wf_pools_def)

lemma wf_calls_update [simp]: "wf_pools (w\<lparr>calls := cs\<rparr>) = wf_pools w"
  by (simp add: wf_pools_def)

lemma wf_Allow:
  assumes "wf_pools w" and "Allow e a w = (ok, w')"
  shows "wf_pools w'"
proof -
  from assms(2) obtain l' where
    "w' = record_call (LimiterAllow a) (w\<lparr>heap := (heap w)[a := l']\<rparr>)"
    by (auto simp: Allow_def split: prod.splits)
  with assms(1) show ?thesis
    by (simp add: wf_pools_def)
qed

lemma wf_getLimiter:
  assumes wf: "wf_pools w" and g: "getLimiter k p rps w = (a, w')"
  shows "wf_pools w'"
proof (cases "limitMap p w k")
  case (Some a0)
  with g wf show ?thesis by (auto simp: getLimiter_hit)
next
  case None
  with g have w': "w' = limitMap_store p k (length (heap w))
        ((record_call (GetLimiter k p rps) w)
           \<lparr>heap := heap w @ [NewLimiter (PerSecond (1 / 60)) (go_int rps)]\<rparr>)"
    by (auto simp: getLimiter_miss)
  have maps: "limitMap q w' k' = Some b \<longleftrightarrow>
      (if q = p \<and> k' = k then b = length (heap w) else limitMap q w k' = Some b)" for q k' b
    unfolding w' by (cases "q = p") auto
  have len: "length (heap w') = Suc (length (heap w))"
    unfolding w' by simp
  show ?thesis
    unfolding wf_pools_def maps len
    using wf_poolsD [OF wf] by (auto split: if_splits simp: less_Suc_eq)
qed

lemma wf_middleware:
  assumes wf: "wf_pools w" and run: "DedicatedGatewayMiddleware e cfg r w = (out, w')"
  shows "wf_pools w'"
proof (cases "prefix ''/ipfs/'' (URL_Path r)")
  case False
  with run wf show ?thesis by (simp add: middleware_modes)
next
  case True
  show ?thesis
  proof (cases "DedicatedGateway cfg")
    case True
    with run \<open>prefix ''/ipfs/'' (URL_Path r)\<close> have "dedicated_mode e cfg r w = (out, w')"
      by (simp add: middleware_modes)
    then show ?thesis
      using wf by (cases rule: dedicated_mode_cases) simp_all
  next
    case False
    with run \<open>prefix ''/ipfs/'' (URL_Path r)\<close> have "open_mode e cfg r w = (out, w')"
      by (simp add: middleware_modes)
    then show ?thesis
    proof (cases rule: open_mode_cases)
      case (ip_denied a w1 w2)
      with wf_Allow [OF wf_getLimiter [OF wf ip_denied(1)] ip_denied(2)] show ?thesis by simp
    next
      case (bad_path a w1 w2)
      with wf_Allow [OF wf_getLimiter [OF wf bad_path(1)] bad_path(2)] show ?thesis by simp
    next
      case (bad_hash a w1 w2 tok)
      with wf_Allow [OF wf_getLimiter [OF wf bad_hash(1)] bad_hash(2)] show ?thesis by simp
    next
      case (cid_denied a w1 w2 tok c a' w5 w6)
      from wf_Allow [OF wf_getLimiter [OF wf cid_denied(1)] cid_denied(2)]
      have "wf_pools (record_call (CidParse tok) (record_call (FindSubmatch (URL_Path r)) w2))"
        by simp
      from wf_Allow [OF wf_getLimiter [OF this cid_denied(5)] cid_denied(6)] cid_denied(8)
      show ?thesis by simp
    next
      case (moderated a w1 w2 tok c a' w5 w6 st err)
      from wf_Allow [OF wf_getLimiter [OF wf moderated(1)] moderated(2)]
      have "wf_pools (record_call (CidParse tok) (record_call (FindSubmatch (URL_Path r)) w2))"
        by simp
      from wf_Allow [OF wf_getLimiter [OF this moderated(5)] moderated(6)] moderated(9)
      show ?thesis by simp
    next
      case (forwarded a w1 w2 tok c a' w5 w6 st)
      from wf_Allow [OF wf_getLimiter [OF wf forwarded(1)] forwarded(2)]
      have "wf_pools (record_call (CidParse tok) (record_call (FindSubmatch (URL_Path r)) w2))"
        by simp
      from wf_Allow [OF wf_getLimiter [OF this forwarded(5)] forwarded(6)] forwarded(9)
      show ?thesis by simp
    qed
  qed
qed

lemma middleware_bursts:
  assumes run: "DedicatedGatewayMiddleware e cfg r w = (out, w')"
      and g: "GetLimiter k q x \<in> set (new_calls w w')"
  shows "go_int x = pool_burst q"
proof (cases "prefix ''/ipfs/'' (URL_Path r)")
  case False
  with run g show ?thesis by (simp add: middleware_modes new_calls_def)
next
  case True
  show ?thesis
  proof (cases "DedicatedGateway cfg")
    case True
    with run \<open>prefix ''/ipfs/'' (URL_Path r)\<close> have "dedicated_mode e cfg r w = (out, w')"
      by (simp add: middleware_modes)
    then show ?thesis
      using g
      by (cases rule: dedicated_mode_cases)
         (auto simp: new_calls_def outbound_def split: option.splits)
  next
    case False
    with run \<open>prefix ''/ipfs/'' (URL_Path r)\<close> have "open_mode e cfg r w = (out, w')"
      by (simp add: middleware_modes)
    then show ?thesis
      using g
      by (cases rule: open_mode_trace)
         (auto simp: new_calls_def outbound_def pool_burst_def go_int_bursts
            split: option.splits)
  qed
qed

lemma limitMap_start [simp]: "limitMap p start_world = Map.empty"
  by (cases p) (simp_all add: start_world_def)

lemma wf_start: "wf_pools start_world"
  by (simp add: wf_pools_def)

lemma verdict_429:
  assumes "fst (checkDmca e h cfg w) = (429, Some err)"
  shows "err = ''Something went wrong'' \<and> url_error e (req_url (dmca_request cfg h)) = None \<and>
         (\<exists>resp. client_Do e (dmca_request cfg h) = Inr resp \<and> StatusCode resp = 429)"
  using assms by (auto simp: checkDmca_verdict split: option.splits sum.splits if_splits)

lemma access_verdict_429:
  assumes "fst (getDedicatedGatewayAccess e h cfg w) = (429, Some err)"
  shows "err = ''No users have subscribed to this hash yet.'' \<and>
         url_error e (req_url (access_request cfg h)) = None \<and>
         (\<exists>resp. client_Do e (access_request cfg h) = Inr resp \<and> StatusCode resp = 429)"
  using assms by (auto simp: access_verdict split: option.splits sum.splits if_splits)

lemma checkDmca_not_rate_limit:
  assumes "fst (checkDmca e h cfg w) = (st, Some err)"
  shows "err \<noteq> ''Too many requests from this IP'' \<and> err \<noteq> ''Too many requests for this CID''"
  using assms
  by (auto simp: checkDmca_verdict takedown_message_def
      split: option.splits sum.splits if_splits)

lemma access_not_rate_limit:
  assumes "fst (getDedicatedGatewayAccess e h cfg w) = (st, Some err)"
  shows "err \<noteq> ''Too many requests from this IP'' \<and> err \<noteq> ''Too many requests for this CID''"
  using assms
  by (auto simp: access_verdict split: option.splits sum.splits if_splits)

subsection \<open>Example runs\<close>

lemmas run_defs =
  DedicatedGatewayMiddleware_def dedicated_mode_def open_mode_def getLimiter_def Allow_def
  checkDmca_def getDedicatedGatewayAccess_def http_NewRequest_def Header_Set_def
  record_call_def match_here_def NewLimiter_def Every_Minute go_int_def Let_def http_consts
  collaborators_def gateway_cfg_def get_request_def start_world_def readme_cid_def
  parse_readme_def frozen_bucket_def closed_bucket_def answers_def unreachable_def
  dmca_request_def access_request_def policy_request_def new_calls_def

lemma gone_dedicated_run:
  "DedicatedGatewayMiddleware (collaborators frozen_bucket (answers 410 ''Gone''))
     (gateway_cfg True) (get_request ''/ipfs/QmYwAPJzv5CZsnA625s3Xf2nemtYgPpHdWEz79ojWnPbdG'')
     start_world =
   (http_Error takedown_message 410,
    start_world\<lparr>calls :=
      [FindSubmatch ''/ipfs/QmYwAPJzv5CZsnA625s3Xf2nemtYgPpHdWEz79ojWnPbdG'',
       CidParse ''QmYwAPJzv5CZsnA625s3Xf2nemtYgPpHdWEz79ojWnPbdG'',
       ClientDo (dmca_request (gateway_cfg True) (cid_String readme_cid))]\<rparr>)"
  by (simp add: run_defs)

lemma gone_open_run:
  "DedicatedGatewayMiddleware (collaborators frozen_bucket (answers 410 ''Gone''))
     (gateway_cfg False) (get_request ''/ipfs/QmYwAPJzv5CZsnA625s3Xf2nemtYgPpHdWEz79ojWnPbdG'')
     start_world =
   (http_Error takedown_message 410,
    \<lparr>ipLimiters = [''192.0.2.7:51234'' \<mapsto> 0],
     cidLimiters = [''QmYwAPJzv5CZsnA625s3Xf2nemtYgPpHdWEz79ojWnPbdG'' \<mapsto> 1],
     heap = [\<lparr>lim_limit = PerSecond (1 / 60), lim_burst = 100, lim_tokens = 99, lim_last = 1\<rparr>,
             \<lparr>lim_limit = PerSecond (1 / 60), lim_burst = 15, lim_tokens = 14, lim_last = 1\<rparr>],
     calls =
      [GetLimiter ''192.0.2.7:51234'' IpPool 100, LimiterAllow 0,
       FindSubmatch ''/ipfs/QmYwAPJzv5CZsnA625s3Xf2nemtYgPpHdWEz79ojWnPbdG'',
       CidParse ''QmYwAPJzv5CZsnA625s3Xf2nemtYgPpHdWEz79ojWnPbdG'',
       GetLimiter ''QmYwAPJzv5CZsnA625s3Xf2nemtYgPpHdWEz79ojWnPbdG'' CidPool 15, LimiterAllow 1,
       ClientDo (dmca_request (gateway_cfg False) (cid_String readme_cid))]\<rparr>)"
  by (simp add: run_defs)

lemma unreachable_dedicated_run:
  "DedicatedGatewayMiddleware (collaborators frozen_bucket unreachable)
     (gateway_cfg True) (get_request ''/ipfs/QmYwAPJzv5CZsnA625s3Xf2nemtYgPpHdWEz79ojWnPbdG'')
     start_world =
   (http_Error ''Error while calling DMCA API'' 500,
    start_world\<lparr>calls :=
      [FindSubmatch ''/ipfs/QmYwAPJzv5CZsnA625s3Xf2nemtYgPpHdWEz79ojWnPbdG'',
       CidParse ''QmYwAPJzv5CZsnA625s3Xf2nemtYgPpHdWEz79ojWnPbdG'',
       ClientDo (dmca_request (gateway_cfg True) (cid_String readme_cid))]\<rparr>)"
  by (simp add: run_defs)

lemma answered_dedicated_run:
  "code \<noteq> 200 \<Longrightarrow> code \<noteq> 410 \<Longrightarrow>
   DedicatedGatewayMiddleware (collaborators frozen_bucket (answers code body))
     (gateway_cfg True) (get_request ''/ipfs/QmYwAPJzv5CZsnA625s3Xf2nemtYgPpHdWEz79ojWnPbdG'')
     start_world =
   (http_Error ''Something went wrong'' code,
    start_world\<lparr>calls :=
      [FindSubmatch ''/ipfs/QmYwAPJzv5CZsnA625s3Xf2nemtYgPpHdWEz79ojWnPbdG'',
       CidParse ''QmYwAPJzv5CZsnA625s3Xf2nemtYgPpHdWEz79ojWnPbdG'',
       ClientDo (dmca_request (gateway_cfg True) (cid_String readme_cid))]\<rparr>)"
  by (simp add: run_defs)

lemma readme_token:
  "resource_token ''/ipfs/QmYwAPJzv5CZsnA625s3Xf2nemtYgPpHdWEz79ojWnPbdG'' =
     Some ''QmYwAPJzv5CZsnA625s3Xf2nemtYgPpHdWEz79ojWnPbdG''"
  by (simp add: resource_token_def match_here_def Let_def)

section \<open>The order of the checks in open mode\<close>

text \<open>
  C1. In open mode, for a path with the prefix \<^verbatim>\<open>/ipfs/\<close>, the handler runs its checks
  in this order and stops at the first that fails: the limiter of the client-address
  pool for the remote address of the request (rejection 429,
  \<^verbatim>\<open>Too many requests from this IP\<close>, nothing parsed and no policy call made); the
  extraction of the token and the parsing of the CID (rejection 400); the limiter of the
  resource-identifier pool for the canonical string of the CID (rejection 429,
  \<^verbatim>\<open>Too many requests for this CID\<close>); the moderation check (rejection with its status
  and message). Only when all pass is the request forwarded. No request of the access
  check is ever sent. The state is any state in which no limiter object is shared, as
  the empty maps are and as every request leaves it (\<open>wf_start\<close>, \<open>wf_middleware\<close>);
  the object a pool has for a key is then the one stored in the state the request
  starts in, or a new one.
\<close>

theorem open_mode_order:
  assumes wf: "wf_pools w"
      and mode: "\<not> DedicatedGateway cfg" "prefix ''/ipfs/'' (URL_Path r)"
      and run: "DedicatedGatewayMiddleware e cfg r w = (out, w')"
  shows "(\<exists>a a'.
           let ip_check = [GetLimiter (RemoteAddr r) IpPool 100, LimiterAllow a];
               extraction = [FindSubmatch (URL_Path r)];
               cid_check = (\<lambda>c. [GetLimiter (cid_String c) CidPool 15, LimiterAllow a'])
           in
             if \<not> fst (limiter_Allow e (pool_limiter IpPool (RemoteAddr r) 100 w))
             then out = http_Error ''Too many requests from this IP'' 429 \<and>
                  new_calls w w' = ip_check
             else
               (case resource_token (URL_Path r) of
                  None \<Rightarrow>
                    out = http_Error ''Invalid path'' 400 \<and>
                    new_calls w w' = ip_check @ extraction
                | Some tok \<Rightarrow>
                    (case cid_Parse e tok of
                       None \<Rightarrow>
                         out = http_Error ''Invalid hash'' 400 \<and>
                         new_calls w w' = ip_check @ extraction @ [CidParse tok]
                     | Some c \<Rightarrow>
                         if \<not> fst (limiter_Allow e (pool_limiter CidPool (cid_String c) 15 w))
                         then out = http_Error ''Too many requests for this CID'' 429 \<and>
                              new_calls w w' =
                                ip_check @ extraction @ [CidParse tok] @ cid_check c
                         else
                           new_calls w w' =
                             ip_check @ extraction @ [CidParse tok] @ cid_check c @
                             outbound e (dmca_request cfg (cid_String c)) \<and>
                           (case fst (checkDmca e (cid_String c) cfg w) of
                              (st, Some err) \<Rightarrow> out = http_Error err st
                            | (st, None) \<Rightarrow> out = next_ServeHTTP)))) \<and>
         (\<forall>h. ClientDo (access_request cfg h) \<notin> set (new_calls w w'))"
proof -
  from mode run have om: "open_mode e cfg r w = (out, w')"
    by (simp add: middleware_modes)
  have no_access: "\<forall>h. ClientDo (access_request cfg h) \<notin> set (new_calls w w')"
    using om
    by (cases rule: open_mode_trace)
       (auto simp: new_calls_def ClientDo_in_outbound dmca_not_access [symmetric])
  have cid_limiter:
    "pool_limiter CidPool k 15
       (record_call (CidParse tok) (record_call (FindSubmatch (URL_Path r)) w2)) =
     pool_limiter CidPool k 15 w"
    if "getLimiter (RemoteAddr r) IpPool 100 w = (a, w1)" "Allow e a w1 = (ok, w2)"
    for k tok a w1 ok w2
    using pool_limiter_other_pool [OF wf that, of CidPool k 15] by simp
  have order: "\<exists>a a'.
           let ip_check = [GetLimiter (RemoteAddr r) IpPool 100, LimiterAllow a];
               extraction = [FindSubmatch (URL_Path r)];
               cid_check = (\<lambda>c. [GetLimiter (cid_String c) CidPool 15, LimiterAllow a'])
           in
             if \<not> fst (limiter_Allow e (pool_limiter IpPool (RemoteAddr r) 100 w))
             then out = http_Error ''Too many requests from this IP'' 429 \<and>
                  new_calls w w' = ip_check
             else
               (case resource_token (URL_Path r) of
                  None \<Rightarrow>
                    out = http_Error ''Invalid path'' 400 \<and>
                    new_calls w w' = ip_check @ extraction
                | Some tok \<Rightarrow>
                    (case cid_Parse e tok of
                       None \<Rightarrow>
                         out = http_Error ''Invalid hash'' 400 \<and>
                         new_calls w w' = ip_check @ extraction @ [CidParse tok]
                     | Some c \<Rightarrow>
                         if \<not> fst (limiter_Allow e (pool_limiter CidPool (cid_String c) 15 w))
                         then out = http_Error ''Too many requests for this CID'' 429 \<and>
                              new_calls w w' =
                                ip_check @ extraction @ [CidParse tok] @ cid_check c
                         else
                           new_calls w w' =
                             ip_check @ extraction @ [CidParse tok] @ cid_check c @
                             outbound e (dmca_request cfg (cid_String c)) \<and>
                           (case fst (checkDmca e (cid_String c) cfg w) of
                              (st, Some err) \<Rightarrow> out = http_Error err st
                            | (st, None) \<Rightarrow> out = next_ServeHTTP)))"
    using om
  proof (cases rule: open_mode_cases)
    case (ip_denied a w1 w2)
    with pool_step(2,3) [OF ip_denied(1,2)] show ?thesis
      by (intro exI [of _ a]) (simp add: go_int_bursts Let_def)
  next
    case (bad_path a w1 w2)
    with pool_step(2,3) [OF bad_path(1,2)] show ?thesis
      by (intro exI [of _ a]) (simp add: go_int_bursts Let_def)
  next
    case (bad_hash a w1 w2 tok)
    with pool_step(2,3) [OF bad_hash(1,2)] show ?thesis
      by (intro exI [of _ a]) (simp add: go_int_bursts Let_def)
  next
    case (cid_denied a w1 w2 tok c a' w5 w6)
    with pool_step(2,3) [OF cid_denied(1,2)] pool_step(2,3) [OF cid_denied(5,6)]
      cid_limiter [OF cid_denied(1,2)]
    show ?thesis
      by (intro exI [of _ a] exI [of _ a']) (simp add: go_int_bursts Let_def)
  next
    case (moderated a w1 w2 tok c a' w5 w6 st err)
    with pool_step(2,3) [OF moderated(1,2)] pool_step(2,3) [OF moderated(5,6)]
      cid_limiter [OF moderated(1,2)]
    show ?thesis
      by (intro exI [of _ a] exI [of _ a']) (simp add: go_int_bursts Let_def)
  next
    case (forwarded a w1 w2 tok c a' w5 w6 st)
    with pool_step(2,3) [OF forwarded(1,2)] pool_step(2,3) [OF forwarded(5,6)]
      cid_limiter [OF forwarded(1,2)]
    show ?thesis
      by (intro exI [of _ a] exI [of _ a']) (simp add: go_int_bursts Let_def)
  qed
  from order no_access show ?thesis by blast
qed

theorem open_mode_order_witness:
  "fst (DedicatedGatewayMiddleware (collaborators closed_bucket unreachable) (gateway_cfg False)
     (get_request ''/ipfs/'') start_world) = http_Error ''Too many requests from this IP'' 429 \<and>
   (\<exists>a. calls (snd (DedicatedGatewayMiddleware (collaborators closed_bucket unreachable)
     (gateway_cfg False) (get_request ''/ipfs/'') start_world)) =
     [GetLimiter ''192.0.2.7:51234'' IpPool 100, LimiterAllow a]) \<and>
   fst (DedicatedGatewayMiddleware (collaborators frozen_bucket (answers 200 ''''))
     (gateway_cfg False) (get_request ''/ipfs/QmYwAPJzv5CZsnA625s3Xf2nemtYgPpHdWEz79ojWnPbdG'')
     start_world) = next_ServeHTTP"
proof -
  let ?e = "collaborators closed_bucket unreachable"
  obtain out w' where
    run: "DedicatedGatewayMiddleware ?e (gateway_cfg False) (get_request ''/ipfs/'') start_world
            = (out, w')"
    by (cases "DedicatedGatewayMiddleware ?e (gateway_cfg False) (get_request ''/ipfs/'')
          start_world")
  have mode: "\<not> DedicatedGateway (gateway_cfg False)"
    "prefix ''/ipfs/'' (URL_Path (get_request ''/ipfs/''))"
    by (simp_all add: gateway_cfg_def get_request_def)
  have denied: "\<not> fst (limiter_Allow ?e
      (pool_limiter IpPool (RemoteAddr (get_request ''/ipfs/'')) 100 start_world))"
    by (simp add: collaborators_def closed_bucket_def)
  have new: "new_calls start_world w' = calls w'"
    by (simp add: new_calls_def start_world_def)
  from open_mode_order [OF wf_start mode run] denied
  have first: "out = http_Error ''Too many requests from this IP'' 429 \<and>
        (\<exists>a. calls w' = [GetLimiter ''192.0.2.7:51234'' IpPool 100, LimiterAllow a])"
    unfolding new by (auto simp: Let_def get_request_def)
  let ?e2 = "collaborators frozen_bucket (answers 200 '''')"
  let ?p = "''/ipfs/QmYwAPJzv5CZsnA625s3Xf2nemtYgPpHdWEz79ojWnPbdG''"
  obtain out2 w2 where
    run2: "DedicatedGatewayMiddleware ?e2 (gateway_cfg False) (get_request ?p) start_world
            = (out2, w2)"
    by (cases "DedicatedGatewayMiddleware ?e2 (gateway_cfg False) (get_request ?p) start_world")
  have mode2: "prefix ''/ipfs/'' (URL_Path (get_request ?p))"
    by (simp add: get_request_def)
  have allowed: "fst (limiter_Allow ?e2 (pool_limiter IpPool k 100 start_world))"
    "fst (limiter_Allow ?e2 (pool_limiter CidPool k 15 start_world))" for k
    by (simp_all add: collaborators_def frozen_bucket_def pool_limiter_def NewLimiter_def)
  have tok: "resource_token (URL_Path (get_request ?p)) = Some (cid_String readme_cid)"
    by (simp add: get_request_def readme_token readme_cid_def)
  have parsed: "cid_Parse ?e2 (cid_String readme_cid) = Some readme_cid"
    by (simp add: collaborators_def parse_readme_def)
  have verdict: "fst (checkDmca ?e2 (cid_String readme_cid) (gateway_cfg False) start_world) =
      (200, None)"
    by (simp add: checkDmca_verdict collaborators_def answers_def)
  from open_mode_order [OF wf_start mode(1) mode2 run2]
  have second: "out2 = next_ServeHTTP"
    by (auto simp: Let_def allowed tok parsed verdict)
  from first second run run2 show ?thesis by simp
qed

section \<open>The order of the checks in dedicated-gateway mode\<close>

text \<open>
  C2. In dedicated-gateway mode, for a path with the prefix \<^verbatim>\<open>/ipfs/\<close> whose resource
  identifier parses, the moderation check runs first. If it fails, the request is
  rejected with its status and message and no request of the access check is sent. The
  access check is called only after the moderation check has allowed, and the request
  is forwarded exactly when both checks allow.
\<close>

theorem dedicated_mode_order:
  assumes mode: "DedicatedGateway cfg" "prefix ''/ipfs/'' (URL_Path r)"
      and run: "DedicatedGatewayMiddleware e cfg r w = (out, w')"
      and parsed: "resource_token (URL_Path r) = Some tok" "cid_Parse e tok = Some c"
  shows "(case fst (checkDmca e (cid_String c) cfg w) of
            (st, Some err) \<Rightarrow>
              out = http_Error err st \<and>
              new_calls w w' =
                [FindSubmatch (URL_Path r), CidParse tok] @
                outbound e (dmca_request cfg (cid_String c))
          | (st, None) \<Rightarrow>
              new_calls w w' =
                [FindSubmatch (URL_Path r), CidParse tok] @
                outbound e (dmca_request cfg (cid_String c)) @
                outbound e (access_request cfg (cid_Hash_HexString c)) \<and>
              (case fst (getDedicatedGatewayAccess e (cid_Hash_HexString c) cfg w) of
                 (st', Some err) \<Rightarrow> out = http_Error err st'
               | (st', None) \<Rightarrow> out = next_ServeHTTP)) \<and>
         (\<forall>h. ClientDo (access_request cfg h) \<in> set (new_calls w w') \<longrightarrow>
              snd (fst (checkDmca e (cid_String c) cfg w)) = None) \<and>
         (out = next_ServeHTTP \<longleftrightarrow>
            snd (fst (checkDmca e (cid_String c) cfg w)) = None \<and>
            snd (fst (getDedicatedGatewayAccess e (cid_Hash_HexString c) cfg w)) = None)"
proof -
  from mode run have "dedicated_mode e cfg r w = (out, w')"
    by (simp add: middleware_modes)
  then show ?thesis
    using parsed
    by (cases rule: dedicated_mode_cases)
       (auto simp: new_calls_def ClientDo_in_outbound dmca_not_access
          dmca_not_access [symmetric])
qed

theorem dedicated_mode_order_witness:
  "fst (DedicatedGatewayMiddleware
     (collaborators frozen_bucket (answers 403 ''blocked by the moderators''))
     (gateway_cfg True) (get_request ''/ipfs/QmYwAPJzv5CZsnA625s3Xf2nemtYgPpHdWEz79ojWnPbdG'')
     start_world) = http_Error ''Something went wrong'' 403 \<and>
   calls (snd (DedicatedGatewayMiddleware
     (collaborators frozen_bucket (answers 403 ''blocked by the moderators''))
     (gateway_cfg True) (get_request ''/ipfs/QmYwAPJzv5CZsnA625s3Xf2nemtYgPpHdWEz79ojWnPbdG'')
     start_world)) =
     [FindSubmatch ''/ipfs/QmYwAPJzv5CZsnA625s3Xf2nemtYgPpHdWEz79ojWnPbdG'',
      CidParse ''QmYwAPJzv5CZsnA625s3Xf2nemtYgPpHdWEz79ojWnPbdG'',
      ClientDo (dmca_request (gateway_cfg True) (cid_String readme_cid))]"
proof -
  let ?e = "collaborators frozen_bucket (answers 403 ''blocked by the moderators'')"
  let ?p = "''/ipfs/QmYwAPJzv5CZsnA625s3Xf2nemtYgPpHdWEz79ojWnPbdG''"
  obtain out w' where
    run: "DedicatedGatewayMiddleware ?e (gateway_cfg True) (get_request ?p) start_world = (out, w')"
    by (cases "DedicatedGatewayMiddleware ?e (gateway_cfg True) (get_request ?p) start_world")
  have mode: "DedicatedGateway (gateway_cfg True)" "prefix ''/ipfs/'' (URL_Path (get_request ?p))"
    by (simp_all add: gateway_cfg_def get_request_def)
  have tok: "resource_token (URL_Path (get_request ?p)) = Some (cid_String readme_cid)"
    by (simp add: resource_token_def get_request_def match_here_def readme_cid_def Let_def)
  have parsed: "cid_Parse ?e (cid_String readme_cid) = Some readme_cid"
    by (simp add: collaborators_def parse_readme_def)
  have verdict: "fst (checkDmca ?e (cid_String readme_cid) (gateway_cfg True) start_world) =
      (403, Some ''Something went wrong'')"
    by (simp add: checkDmca_verdict collaborators_def answers_def)
  have out: "outbound ?e (dmca_request (gateway_cfg True) (cid_String readme_cid)) =
      [ClientDo (dmca_request (gateway_cfg True) (cid_String readme_cid))]"
    by (simp add: outbound_def collaborators_def)
  have new: "new_calls start_world w' = calls w'"
    by (simp add: new_calls_def start_world_def)
  from dedicated_mode_order [OF mode run tok parsed]
  have "out = http_Error ''Something went wrong'' 403 \<and>
        calls w' = [FindSubmatch ?p, CidParse (cid_String readme_cid),
                    ClientDo (dmca_request (gateway_cfg True) (cid_String readme_cid))]"
    unfolding verdict out new by (simp add: get_request_def)
  with run show ?thesis by (simp add: readme_cid_def)
qed

section \<open>The messages of the policy checks\<close>

text \<open>
  C3, as the code has it. When the remote service answers the moderation check with a
  status that is neither 200 nor 410, the check denies with that status and the fixed
  message \<^verbatim>\<open>Something went wrong\<close>. Independently of that, when it answers the access
  check with a status other than 200, the check denies with that status and the fixed
  message \<^verbatim>\<open>No users have subscribed to this hash yet.\<close> Neither message depends on
  the body of the remote response, and each half holds whatever the other check is
  answered.
\<close>

theorem not_ok_messages:
  "(url_error e (req_url (dmca_request cfg h)) = None \<and>
    client_Do e (dmca_request cfg h) = Inr resp \<and>
    StatusCode resp \<noteq> 200 \<and> StatusCode resp \<noteq> 410 \<longrightarrow>
      fst (checkDmca e h cfg w) = (StatusCode resp, Some ''Something went wrong'')) \<and>
   (url_error e (req_url (access_request cfg h')) = None \<and>
    client_Do e (access_request cfg h') = Inr resp' \<and>
    StatusCode resp' \<noteq> 200 \<longrightarrow>
      fst (getDedicatedGatewayAccess e h' cfg w) =
        (StatusCode resp', Some ''No users have subscribed to this hash yet.''))"
  by (simp add: checkDmca_verdict access_verdict)

theorem not_ok_messages_witness:
  "fst (checkDmca (collaborators frozen_bucket (answers 403 ''blocked by the moderators''))
         (cid_String readme_cid) (gateway_cfg True) start_world) =
     (403, Some ''Something went wrong'') \<and>
   fst (checkDmca
         (collaborators frozen_bucket
            (\<lambda>req. if req = dmca_request (gateway_cfg True) (cid_String readme_cid)
                   then answers 200 '''' req else answers 403 ''not subscribed'' req))
         (cid_String readme_cid) (gateway_cfg True) start_world) = (200, None) \<and>
   fst (getDedicatedGatewayAccess
         (collaborators frozen_bucket
            (\<lambda>req. if req = dmca_request (gateway_cfg True) (cid_String readme_cid)
                   then answers 200 '''' req else answers 403 ''not subscribed'' req))
         (cid_Hash_HexString readme_cid) (gateway_cfg True) start_world) =
     (403, Some ''No users have subscribed to this hash yet.'')"
proof -
  let ?e = "collaborators frozen_bucket (answers 403 ''blocked by the moderators'')"
  let ?e' = "collaborators frozen_bucket
      (\<lambda>req. if req = dmca_request (gateway_cfg True) (cid_String readme_cid)
             then answers 200 '''' req else answers 403 ''not subscribed'' req)"
  have moderation: "url_error ?e (req_url (dmca_request (gateway_cfg True) (cid_String readme_cid)))
      = None"
    "client_Do ?e (dmca_request (gateway_cfg True) (cid_String readme_cid)) =
       Inr \<lparr>StatusCode = 403, Body = ''blocked by the moderators''\<rparr>"
    by (simp_all add: collaborators_def answers_def)
  have access: "url_error ?e'
      (req_url (access_request (gateway_cfg True) (cid_Hash_HexString readme_cid))) = None"
    "client_Do ?e' (access_request (gateway_cfg True) (cid_Hash_HexString readme_cid)) =
       Inr \<lparr>StatusCode = 403, Body = ''not subscribed''\<rparr>"
    by (simp_all add: collaborators_def answers_def dmca_not_access [symmetric])
  have allowed: "fst (checkDmca ?e' (cid_String readme_cid) (gateway_cfg True) start_world) =
      (200, None)"
    by (simp add: checkDmca_verdict collaborators_def answers_def)
  from not_ok_messages
      [of ?e "gateway_cfg True" "cid_String readme_cid"
        "\<lparr>StatusCode = 403, Body = ''blocked by the moderators''\<rparr>" start_world,
       THEN conjunct1]
    moderation
  have first: "fst (checkDmca ?e (cid_String readme_cid) (gateway_cfg True) start_world) =
      (403, Some ''Something went wrong'')"
    by simp
  from not_ok_messages
      [where e = ?e' and cfg = "gateway_cfg True" and h' = "cid_Hash_HexString readme_cid"
         and resp' = "\<lparr>StatusCode = 403, Body = ''not subscribed''\<rparr>" and w = start_world,
       THEN conjunct2]
    access
  have second: "fst (getDedicatedGatewayAccess ?e' (cid_Hash_HexString readme_cid)
      (gateway_cfg True) start_world) =
      (403, Some ''No users have subscribed to this hash yet.'')"
    by simp
  from first allowed second show ?thesis by blast
qed

text \<open>
  The moderation service answers 403 with a message of its own; the moderation check
  does not deny with that message.
\<close>

theorem remote_message_counterexample:
  "client_Do (collaborators frozen_bucket (answers 403 ''blocked by the moderators''))
     (dmca_request (gateway_cfg True) (cid_String readme_cid)) =
     Inr \<lparr>StatusCode = 403, Body = ''blocked by the moderators''\<rparr> \<and>
   fst (checkDmca (collaborators frozen_bucket (answers 403 ''blocked by the moderators''))
         (cid_String readme_cid) (gateway_cfg True) start_world) \<noteq>
     (403, Some ''blocked by the moderators'')"
  by (simp add: checkDmca_verdict collaborators_def answers_def)

section \<open>A takedown answer of the moderation service\<close>

text \<open>
  C4. In either mode, whenever the handler has sent the request of the moderation check
  and the remote service answers it with status 410, the handler rejects the request
  with status 410 and the fixed takedown message.
\<close>

theorem gone_is_terminal:
  assumes run: "DedicatedGatewayMiddleware e cfg r w = (out, w')"
      and sent: "ClientDo (dmca_request cfg h) \<in> set (new_calls w w')"
      and gone: "client_Do e (dmca_request cfg h) = Inr resp" "StatusCode resp = 410"
  shows "out = http_Error takedown_message 410"
proof -
  have verdict: "fst (checkDmca e h cfg w) = (410, Some takedown_message)"
    if "url_error e (req_url (dmca_request cfg h)) = None"
    using that gone by (simp add: checkDmca_verdict)
  show ?thesis
  proof (cases "prefix ''/ipfs/'' (URL_Path r)")
    case False
    with run sent show ?thesis by (simp add: middleware_modes new_calls_def)
  next
    case True
    show ?thesis
    proof (cases "DedicatedGateway cfg")
      case True
      with run \<open>prefix ''/ipfs/'' (URL_Path r)\<close> have "dedicated_mode e cfg r w = (out, w')"
        by (simp add: middleware_modes)
      then show ?thesis
        using sent verdict
        by (cases rule: dedicated_mode_cases)
           (auto simp: ClientDo_in_outbound dmca_not_access dest!: dmca_request_inj)
    next
      case False
      with run \<open>prefix ''/ipfs/'' (URL_Path r)\<close> have "open_mode e cfg r w = (out, w')"
        by (simp add: middleware_modes)
      then show ?thesis
        using sent verdict
        by (cases rule: open_mode_trace)
           (auto simp: ClientDo_in_outbound dest!: dmca_request_inj)
    qed
  qed
qed

theorem gone_is_terminal_witness:
  "fst (DedicatedGatewayMiddleware (collaborators frozen_bucket (answers 410 ''Gone''))
     (gateway_cfg True) (get_request ''/ipfs/QmYwAPJzv5CZsnA625s3Xf2nemtYgPpHdWEz79ojWnPbdG'')
     start_world) = http_Error takedown_message 410 \<and>
   fst (DedicatedGatewayMiddleware (collaborators frozen_bucket (answers 410 ''Gone''))
     (gateway_cfg False) (get_request ''/ipfs/QmYwAPJzv5CZsnA625s3Xf2nemtYgPpHdWEz79ojWnPbdG'')
     start_world) = http_Error takedown_message 410"
proof -
  let ?e = "collaborators frozen_bucket (answers 410 ''Gone'')"
  let ?r = "get_request ''/ipfs/QmYwAPJzv5CZsnA625s3Xf2nemtYgPpHdWEz79ojWnPbdG''"
  have gone: "client_Do ?e (dmca_request cfg (cid_String readme_cid)) =
      Inr \<lparr>StatusCode = 410, Body = ''Gone''\<rparr>" for cfg
    by (simp add: collaborators_def answers_def)
  obtain out w' where run: "DedicatedGatewayMiddleware ?e (gateway_cfg True) ?r start_world = (out, w')"
    by (cases "DedicatedGatewayMiddleware ?e (gateway_cfg True) ?r start_world")
  then have sent: "ClientDo (dmca_request (gateway_cfg True) (cid_String readme_cid)) \<in>
      set (new_calls start_world w')"
    unfolding gone_dedicated_run by (auto simp: new_calls_def start_world_def)
  obtain out2 w2 where run2: "DedicatedGatewayMiddleware ?e (gateway_cfg False) ?r start_world = (out2, w2)"
    by (cases "DedicatedGatewayMiddleware ?e (gateway_cfg False) ?r start_world")
  then have sent2: "ClientDo (dmca_request (gateway_cfg False) (cid_String readme_cid)) \<in>
      set (new_calls start_world w2)"
    unfolding gone_open_run by (auto simp: new_calls_def start_world_def)
  from gone_is_terminal [OF run sent gone] gone_is_terminal [OF run2 sent2 gone]
  show ?thesis by (simp add: run run2)
qed

section \<open>The policy checks fail closed\<close>

text \<open>
  C5. Each outbound request the handler sends is sent exactly once. If it fails at the
  transport level, the request is rejected with status 500 and the generic message of
  the check that sent it, and the request is forwarded only if every outbound request
  was answered with status 200. Each check whose single call fails at the transport
  level returns status 500 with its generic message, and each check allows exactly when
  its request could be built and was answered with status 200.
\<close>

theorem checks_fail_closed:
  "(DedicatedGatewayMiddleware e cfg r w = (out, w') \<and>
    ClientDo req \<in> set (new_calls w w') \<longrightarrow>
      count_list (new_calls w w') (ClientDo req) = 1 \<and>
      (\<forall>err. client_Do e req = Inl err \<longrightarrow>
         (\<exists>h. req = dmca_request cfg h \<and>
              out = http_Error ''Error while calling DMCA API'' 500) \<or>
         (\<exists>h. req = access_request cfg h \<and>
              out = http_Error ''Error while calling dedicated gateway API'' 500)) \<and>
      (out = next_ServeHTTP \<longrightarrow>
         (\<exists>resp. client_Do e req = Inr resp \<and> StatusCode resp = 200))) \<and>
   (\<forall>h err. url_error e (req_url (dmca_request cfg h)) = None \<and>
      client_Do e (dmca_request cfg h) = Inl err \<longrightarrow>
        checkDmca e h cfg w =
          ((500, Some ''Error while calling DMCA API''),
           w\<lparr>calls := calls w @ [ClientDo (dmca_request cfg h)]\<rparr>)) \<and>
   (\<forall>h err. url_error e (req_url (access_request cfg h)) = None \<and>
      client_Do e (access_request cfg h) = Inl err \<longrightarrow>
        getDedicatedGatewayAccess e h cfg w =
          ((500, Some ''Error while calling dedicated gateway API''),
           w\<lparr>calls := calls w @ [ClientDo (access_request cfg h)]\<rparr>)) \<and>
   (\<forall>h. (snd (fst (checkDmca e h cfg w)) = None) =
      (url_error e (req_url (dmca_request cfg h)) = None \<and>
       (\<exists>resp. client_Do e (dmca_request cfg h) = Inr resp \<and> StatusCode resp = 200))) \<and>
   (\<forall>h. (snd (fst (getDedicatedGatewayAccess e h cfg w)) = None) =
      (url_error e (req_url (access_request cfg h)) = None \<and>
       (\<exists>resp. client_Do e (access_request cfg h) = Inr resp \<and> StatusCode resp = 200)))"
proof -
  have dm: "(snd (fst (checkDmca e h cfg w)) = None) =
      (url_error e (req_url (dmca_request cfg h)) = None \<and>
       (\<exists>resp. client_Do e (dmca_request cfg h) = Inr resp \<and> StatusCode resp = 200))" for h
    by (auto simp: checkDmca_verdict split: option.splits sum.splits)
  have ac: "(snd (fst (getDedicatedGatewayAccess e h cfg w)) = None) =
      (url_error e (req_url (access_request cfg h)) = None \<and>
       (\<exists>resp. client_Do e (access_request cfg h) = Inr resp \<and> StatusCode resp = 200))" for h
    by (auto simp: access_verdict split: option.splits sum.splits)
  have dm_fail: "fst (checkDmca e h cfg w) = (500, Some ''Error while calling DMCA API'')"
    if "url_error e (req_url (dmca_request cfg h)) = None"
       "client_Do e (dmca_request cfg h) = Inl err" for h err
    using that by (simp add: checkDmca_verdict)
  have ac_fail: "fst (getDedicatedGatewayAccess e h cfg w) =
      (500, Some ''Error while calling dedicated gateway API'')"
    if "url_error e (req_url (access_request cfg h)) = None"
       "client_Do e (access_request cfg h) = Inl err" for h err
    using that by (simp add: access_verdict)
  have dm_call: "checkDmca e h cfg w =
      ((500, Some ''Error while calling DMCA API''),
       w\<lparr>calls := calls w @ [ClientDo (dmca_request cfg h)]\<rparr>)"
    if "url_error e (req_url (dmca_request cfg h)) = None"
       "client_Do e (dmca_request cfg h) = Inl err" for h err
    using checkDmca_split [of e h cfg w w] dm_fail [OF that] that(1)
    by (simp add: outbound_def)
  have ac_call: "getDedicatedGatewayAccess e h cfg w =
      ((500, Some ''Error while calling dedicated gateway API''),
       w\<lparr>calls := calls w @ [ClientDo (access_request cfg h)]\<rparr>)"
    if "url_error e (req_url (access_request cfg h)) = None"
       "client_Do e (access_request cfg h) = Inl err" for h err
    using access_split [of e h cfg w w] ac_fail [OF that] that(1)
    by (simp add: outbound_def)
  have main: "count_list (new_calls w w') (ClientDo req) = 1 \<and>
         (\<forall>err. client_Do e req = Inl err \<longrightarrow>
            (\<exists>h. req = dmca_request cfg h \<and>
                 out = http_Error ''Error while calling DMCA API'' 500) \<or>
            (\<exists>h. req = access_request cfg h \<and>
                 out = http_Error ''Error while calling dedicated gateway API'' 500)) \<and>
         (out = next_ServeHTTP \<longrightarrow>
            (\<exists>resp. client_Do e req = Inr resp \<and> StatusCode resp = 200))"
    if run: "DedicatedGatewayMiddleware e cfg r w = (out, w')"
      and sent: "ClientDo req \<in> set (new_calls w w')"
  proof (cases "prefix ''/ipfs/'' (URL_Path r)")
    case False
    with run sent show ?thesis by (simp add: middleware_modes new_calls_def)
  next
    case True
    show ?thesis
    proof (cases "DedicatedGateway cfg")
      case True
      with run \<open>prefix ''/ipfs/'' (URL_Path r)\<close> have "dedicated_mode e cfg r w = (out, w')"
        by (simp add: middleware_modes)
      then show ?thesis
        using sent
      proof (cases rule: dedicated_mode_cases)
        case bad_path
        with sent show ?thesis by (simp add: new_calls_def)
      next
        case (bad_hash tok)
        with sent show ?thesis by (simp add: new_calls_def)
      next
        case (moderated tok c st err)
        with sent dm_fail [of "cid_String c"] show ?thesis
          by (auto simp: new_calls_def ClientDo_in_outbound outbound_def)
      next
        case (no_access tok c st st' err)
        with sent dm [of "cid_String c"] ac_fail [of "cid_Hash_HexString c"] show ?thesis
          using dmca_not_access [of cfg "cid_String c" "cid_Hash_HexString c"]
          by (auto simp: new_calls_def ClientDo_in_outbound outbound_def split: option.splits)
      next
        case (forwarded tok c st st')
        with sent dm [of "cid_String c"] ac [of "cid_Hash_HexString c"] show ?thesis
          using dmca_not_access [of cfg "cid_String c" "cid_Hash_HexString c"]
          by (auto simp: new_calls_def ClientDo_in_outbound outbound_def split: option.splits)
      qed
    next
      case False
      with run \<open>prefix ''/ipfs/'' (URL_Path r)\<close> have "open_mode e cfg r w = (out, w')"
        by (simp add: middleware_modes)
      then show ?thesis
        using sent
      proof (cases rule: open_mode_trace)
        case (moderated a tok c a' st err)
        with sent dm_fail [of "cid_String c"] show ?thesis
          by (auto simp: new_calls_def ClientDo_in_outbound outbound_def)
      next
        case (forwarded a tok c a' st)
        with sent dm [of "cid_String c"] show ?thesis
          by (auto simp: new_calls_def ClientDo_in_outbound outbound_def)
      qed (simp_all add: new_calls_def)
    qed
  qed
  from main dm ac dm_call ac_call show ?thesis by blast
qed

theorem checks_fail_closed_witness:
  "fst (DedicatedGatewayMiddleware (collaborators frozen_bucket unreachable)
     (gateway_cfg True) (get_request ''/ipfs/QmYwAPJzv5CZsnA625s3Xf2nemtYgPpHdWEz79ojWnPbdG'')
     start_world) = http_Error ''Error while calling DMCA API'' 500 \<and>
   count_list
     (calls (snd (DedicatedGatewayMiddleware (collaborators frozen_bucket unreachable)
        (gateway_cfg True)
        (get_request ''/ipfs/QmYwAPJzv5CZsnA625s3Xf2nemtYgPpHdWEz79ojWnPbdG'') start_world)))
     (ClientDo (dmca_request (gateway_cfg True) (cid_String readme_cid))) = 1"
proof -
  let ?e = "collaborators frozen_bucket unreachable"
  let ?r = "get_request ''/ipfs/QmYwAPJzv5CZsnA625s3Xf2nemtYgPpHdWEz79ojWnPbdG''"
  let ?req = "dmca_request (gateway_cfg True) (cid_String readme_cid)"
  obtain out w' where
    run: "DedicatedGatewayMiddleware ?e (gateway_cfg True) ?r start_world = (out, w')"
    by (cases "DedicatedGatewayMiddleware ?e (gateway_cfg True) ?r start_world")
  then have sent: "ClientDo ?req \<in> set (new_calls start_world w')"
    unfolding unreachable_dedicated_run by (auto simp: new_calls_def start_world_def)
  have failed: "client_Do ?e ?req = Inl ''dial tcp: connection refused''"
    by (simp add: collaborators_def unreachable_def)
  have new: "new_calls start_world w' = calls w'"
    by (simp add: new_calls_def start_world_def)
  from checks_fail_closed [of ?e "gateway_cfg True" ?r start_world out w' ?req]
    run sent failed dmca_not_access [of "gateway_cfg True"]
  have "count_list (calls w') (ClientDo ?req) = 1 \<and>
        out = http_Error ''Error while calling DMCA API'' 500"
    unfolding new by metis
  with run show ?thesis by simp
qed

section \<open>The limiter registry\<close>

text \<open>
  C6. In a state where no limiter object is shared, \<^verbatim>\<open>getLimiter\<close> returns the limiter
  stored for the key in the map of the pool and changes neither map nor any limiter;
  exactly when the key is absent it allocates a new limiter with a refill of one token
  per minute and the burst it was given, and stores it under the key in that map only.
  The bursts the handler gives are 100 for the client-address pool and 15 for the
  resource-identifier pool. Afterwards again no limiter object is shared: every other
  key of the pool has another object, and consuming from the returned limiter leaves
  the limiters of the other keys as they are.
\<close>

theorem getLimiter_registry:
  assumes wf: "wf_pools w" and g: "getLimiter key p rps w = (a, w')"
  shows "wf_pools w' \<and> limitMap p w' key = Some a \<and> a < length (heap w') \<and>
         (case limitMap p w key of
            Some a0 \<Rightarrow>
              a = a0 \<and> heap w' = heap w \<and>
              ipLimiters w' = ipLimiters w \<and> cidLimiters w' = cidLimiters w
          | None \<Rightarrow>
              a = length (heap w) \<and>
              heap w' =
                heap w @ [\<lparr>lim_limit = PerSecond (1 / 60), lim_burst = go_int rps,
                           lim_tokens = 0, lim_last = 0\<rparr>] \<and>
              limitMap p w' = (limitMap p w)(key \<mapsto> a) \<and>
              (\<forall>p'. p' \<noteq> p \<longrightarrow> limitMap p' w' = limitMap p' w)) \<and>
         (\<forall>k' b. k' \<noteq> key \<and> limitMap p w' k' = Some b \<longrightarrow>
            b \<noteq> a \<and> heap (snd (Allow e a w')) ! b = heap w' ! b) \<and>
         (DedicatedGatewayMiddleware e cfg r w0 = (out, w1) \<and>
          GetLimiter k q x \<in> set (new_calls w0 w1) \<longrightarrow> go_int x = pool_burst q)"
proof -
  from wf g have wf': "wf_pools w'" by (rule wf_getLimiter)
  have stored: "limitMap p w' key = Some a"
    using g by (cases "limitMap p w key") (auto simp: getLimiter_hit getLimiter_miss)
  from wf_poolsD(1) [OF wf' stored] have range: "a < length (heap w')" .
  have effect: "case limitMap p w key of
            Some a0 \<Rightarrow>
              a = a0 \<and> heap w' = heap w \<and>
              ipLimiters w' = ipLimiters w \<and> cidLimiters w' = cidLimiters w
          | None \<Rightarrow>
              a = length (heap w) \<and>
              heap w' =
                heap w @ [\<lparr>lim_limit = PerSecond (1 / 60), lim_burst = go_int rps,
                           lim_tokens = 0, lim_last = 0\<rparr>] \<and>
              limitMap p w' = (limitMap p w)(key \<mapsto> a) \<and>
              (\<forall>p'. p' \<noteq> p \<longrightarrow> limitMap p' w' = limitMap p' w)"
    using g
    by (cases "limitMap p w key")
       (auto simp: getLimiter_hit getLimiter_miss record_call_def NewLimiter_def)
  have apart: "b \<noteq> a \<and> heap (snd (Allow e a w')) ! b = heap w' ! b"
    if "k' \<noteq> key" "limitMap p w' k' = Some b" for k' b
  proof -
    from wf_poolsD(2) [OF wf' stored, of p k'] that have "b \<noteq> a" by auto
    then show ?thesis
      by (simp add: Allow_def split: prod.splits)
  qed
  from wf' stored range effect apart middleware_bursts [of e cfg r w0 out w1 k q x]
  show ?thesis by blast
qed

theorem getLimiter_registry_witness:
  "(let (a1, w1) = getLimiter ''192.0.2.7:51234'' IpPool 100 start_world;
        (a2, w2) = getLimiter ''198.51.100.9:40000'' IpPool 100 w1
    in a1 = 0 \<and> a2 = 1 \<and>
       heap w2 =
         [\<lparr>lim_limit = PerSecond (1 / 60), lim_burst = 100, lim_tokens = 0, lim_last = 0\<rparr>,
          \<lparr>lim_limit = PerSecond (1 / 60), lim_burst = 100, lim_tokens = 0, lim_last = 0\<rparr>] \<and>
       heap (snd (Allow (collaborators frozen_bucket unreachable) a2 w2)) ! a1 = heap w2 ! a1)"
proof -
  let ?e = "collaborators frozen_bucket unreachable"
  obtain a1 w1 where g1: "getLimiter ''192.0.2.7:51234'' IpPool 100 start_world = (a1, w1)"
    by (cases "getLimiter ''192.0.2.7:51234'' IpPool 100 start_world")
  from getLimiter_registry [OF wf_start g1]
  have one: "wf_pools w1" "a1 = 0"
    "heap w1 =
       [\<lparr>lim_limit = PerSecond (1 / 60), lim_burst = 100, lim_tokens = 0, lim_last = 0\<rparr>]"
    "ipLimiters w1 = [''192.0.2.7:51234'' \<mapsto> 0]"
    by (simp_all add: go_int_bursts start_world_def)
  obtain a2 w2 where g2: "getLimiter ''198.51.100.9:40000'' IpPool 100 w1 = (a2, w2)"
    by (cases "getLimiter ''198.51.100.9:40000'' IpPool 100 w1")
  note reg = getLimiter_registry [OF one(1) g2, of ?e]
  from reg have two: "a2 = 1"
    "heap w2 =
       [\<lparr>lim_limit = PerSecond (1 / 60), lim_burst = 100, lim_tokens = 0, lim_last = 0\<rparr>,
        \<lparr>lim_limit = PerSecond (1 / 60), lim_burst = 100, lim_tokens = 0, lim_last = 0\<rparr>]"
    "ipLimiters w2 = [''192.0.2.7:51234'' \<mapsto> 0, ''198.51.100.9:40000'' \<mapsto> 1]"
    by (simp_all add: one go_int_bursts)
  from reg have apart:
    "k' \<noteq> ''198.51.100.9:40000'' \<and> limitMap IpPool w2 k' = Some b \<longrightarrow>
       heap (snd (Allow ?e a2 w2)) ! b = heap w2 ! b" for k' b
    by blast
  from apart [of "''192.0.2.7:51234''" 0]
  have three: "heap (snd (Allow ?e a2 w2)) ! 0 = heap w2 ! 0"
    by (simp add: two)
  from g1 g2 one two three show ?thesis by simp
qed

section \<open>The extracted token\<close>

text \<open>
  When the segment right after the \<^verbatim>\<open>/ipfs/\<close> prefix is not empty, it is the token.
\<close>

lemma token_is_first_segment:
  assumes "prefix ''/ipfs/'' path" and "first_segment path \<noteq> []"
  shows "resource_token path = Some (first_segment path)"
proof (cases path)
  case Nil
  with assms show ?thesis by simp
next
  case (Cons c cs)
  from assms have "match_here path =
      Some [''/ipfs/'' @ first_segment path, first_segment path]"
    by (simp add: match_here_def first_segment_def Let_def)
  with Cons show ?thesis
    by (simp add: resource_token_def)
qed

text \<open>
  C7 says that for a path with the prefix \<^verbatim>\<open>/ipfs/\<close> the token is the non-empty
  segment right after the prefix, and that the request is rejected with 400
  \<^verbatim>\<open>Invalid path\<close> when that segment is empty. For the path
  \<^verbatim>\<open>/ipfs//ipfs/QmYwAPJzv5CZsnA625s3Xf2nemtYgPpHdWEz79ojWnPbdG\<close> the segment right
  after the prefix is empty, yet the pattern, which is not anchored, matches further to
  the right: the token is the CID of the later segment and the request is forwarded, in
  open mode and in dedicated-gateway mode.
\<close>

theorem empty_first_segment_accepted:
  "prefix ''/ipfs/'' ''/ipfs//ipfs/QmYwAPJzv5CZsnA625s3Xf2nemtYgPpHdWEz79ojWnPbdG'' \<and>
   first_segment ''/ipfs//ipfs/QmYwAPJzv5CZsnA625s3Xf2nemtYgPpHdWEz79ojWnPbdG'' = [] \<and>
   resource_token ''/ipfs//ipfs/QmYwAPJzv5CZsnA625s3Xf2nemtYgPpHdWEz79ojWnPbdG'' =
     Some ''QmYwAPJzv5CZsnA625s3Xf2nemtYgPpHdWEz79ojWnPbdG'' \<and>
   fst (DedicatedGatewayMiddleware (collaborators frozen_bucket (answers 200 ''''))
     (gateway_cfg False)
     (get_request ''/ipfs//ipfs/QmYwAPJzv5CZsnA625s3Xf2nemtYgPpHdWEz79ojWnPbdG'')
     start_world) = next_ServeHTTP \<and>
   fst (DedicatedGatewayMiddleware (collaborators frozen_bucket (answers 200 ''''))
     (gateway_cfg True)
     (get_request ''/ipfs//ipfs/QmYwAPJzv5CZsnA625s3Xf2nemtYgPpHdWEz79ojWnPbdG'')
     start_world) = next_ServeHTTP"
proof -
  have "prefix ''/ipfs/'' ''/ipfs//ipfs/QmYwAPJzv5CZsnA625s3Xf2nemtYgPpHdWEz79ojWnPbdG''"
    by simp
  moreover
  have "first_segment ''/ipfs//ipfs/QmYwAPJzv5CZsnA625s3Xf2nemtYgPpHdWEz79ojWnPbdG'' = []"
    by (simp add: first_segment_def)
  moreover
  have "resource_token ''/ipfs//ipfs/QmYwAPJzv5CZsnA625s3Xf2nemtYgPpHdWEz79ojWnPbdG'' =
      Some ''QmYwAPJzv5CZsnA625s3Xf2nemtYgPpHdWEz79ojWnPbdG''"
    by (simp add: resource_token_def match_here_def Let_def)
  moreover
  have "fst (DedicatedGatewayMiddleware (collaborators frozen_bucket (answers 200 ''''))
     (gateway_cfg False)
     (get_request ''/ipfs//ipfs/QmYwAPJzv5CZsnA625s3Xf2nemtYgPpHdWEz79ojWnPbdG'')
     start_world) = next_ServeHTTP"
    by (simp add: run_defs)
  moreover
  have "fst (DedicatedGatewayMiddleware (collaborators frozen_bucket (answers 200 ''''))
     (gateway_cfg True)
     (get_request ''/ipfs//ipfs/QmYwAPJzv5CZsnA625s3Xf2nemtYgPpHdWEz79ojWnPbdG'')
     start_world) = next_ServeHTTP"
    by (simp add: run_defs)
  ultimately show ?thesis by blast
qed

section \<open>The handler returned by MakeHandler\<close>

text \<open>
  C8. Whenever \<^verbatim>\<open>MakeHandler\<close> returns a handler, that handler answers a request whose
  method is CONNECT with the bare status 200 and dispatches nothing; a request with any
  other method is dispatched to the top-level multiplexer, the fresh multiplexer
  allocated before the first option ran, in the store that folding the options from left
  to right from that fresh multiplexer produces. (The multiplexer the last option
  returns may be another one; the handler does not use it.)
\<close>

theorem MakeHandler_dispatch:
  assumes "MakeHandler options s = Inr (h, s')"
  shows "(\<forall>r. h r = (if Method r = ''CONNECT'' then WriteHeader 200
                      else ServeMux_ServeHTTP (fst (NewServeMux s)))) \<and>
         (\<exists>m. fold_options options (NewServeMux s) = Inr (m, s'))"
  using assms
  by (auto simp: MakeHandler_def options_loop_fold handler_def http_consts
      split: prod.splits sum.splits)

theorem MakeHandler_dispatch_witness:
  "MakeHandler gateway_options [] =
     Inr (handler 0,
          [[(''/version'', ''version''), (''/'', ''hostname'')], [(''/ipfs/'', ''gateway'')]]) \<and>
   handler 0
     \<lparr>Method = ''CONNECT'', URL_Path = ''example.org:443'', RemoteAddr = ''192.0.2.7:51234''\<rparr>
     = WriteHeader 200 \<and>
   handler 0 (get_request ''/ipfs/QmYwAPJzv5CZsnA625s3Xf2nemtYgPpHdWEz79ojWnPbdG'')
     = ServeMux_ServeHTTP 0 \<and>
   fold_options gateway_options (NewServeMux []) =
     Inr (1, [[(''/version'', ''version''), (''/'', ''hostname'')], [(''/ipfs/'', ''gateway'')]])"
proof -
  have fold: "fold_options gateway_options (NewServeMux []) =
     Inr (1, [[(''/version'', ''version''), (''/'', ''hostname'')], [(''/ipfs/'', ''gateway'')]])"
    by (simp add: fold_options_def fold_step_def gateway_options_def register_def mediate_def
        NewServeMux_def)
  have top: "fst (NewServeMux ([] :: string mux_store)) = 0"
    by (simp add: NewServeMux_def)
  from MakeHandler_dispatch [OF gateway_options_run] show ?thesis
    by (simp add: gateway_options_run fold top get_request_def)
qed

section \<open>The error Serve returns\<close>

text \<open>
  C9. Once the server has been started, \<^verbatim>\<open>Serve\<close> returns the error of the serve loop
  when the \<^verbatim>\<open>select\<close> sees the serve loop finish, and, when it sees the process closing
  instead, the error of \<^verbatim>\<open>server.Shutdown\<close> called with a context of 30 seconds
  (\<^verbatim>\<open>nil\<close> when the drain was clean), whatever error the serve loop produced.
\<close>

theorem Serve_error:
  assumes "MakeHandler options s = Inr (h, s')" and "Repo_Config node = Inr cfg"
    and "FromNetAddr node = Inr addr" and "\<not> closing_at_start node"
  shows "Serve node options s =
           (case select_fires node of
              serverProc_Closed \<Rightarrow> server_Serve node
            | Process_Closing \<Rightarrow> server_Shutdown node (30 * 1000000000))"
  using assms
  by (simp add: Serve_def shutdownTimeout_def time_Second_def split: select_case.splits)

theorem Serve_error_witness:
  "Serve draining_node gateway_options [] = Some ''context deadline exceeded'' \<and>
   Serve (draining_node\<lparr>server_Shutdown := (\<lambda>d. None)\<rparr>) gateway_options [] = None \<and>
   Serve (draining_node\<lparr>select_fires := serverProc_Closed\<rparr>) gateway_options [] =
     Some ''http: Server closed''"
  using
    Serve_error [OF gateway_options_run, of draining_node "gateway_cfg False"
      "''/ip4/127.0.0.1/tcp/8080''"]
    Serve_error [OF gateway_options_run, of "draining_node\<lparr>server_Shutdown := (\<lambda>d. None)\<rparr>"
      "gateway_cfg False" "''/ip4/127.0.0.1/tcp/8080''"]
    Serve_error [OF gateway_options_run,
      of "draining_node\<lparr>select_fires := serverProc_Closed\<rparr>" "gateway_cfg False"
      "''/ip4/127.0.0.1/tcp/8080''"]
  by (simp add: draining_node_def time_Second_def)

section \<open>Dedicated-gateway mode and the limiter pools\<close>

text \<open>
  C10, as the code has it. In dedicated-gateway mode, handling a request leaves both
  pool maps and every limiter object unchanged, looks up no limiter and consumes from
  none, and never rejects with one of the two rate-limit messages, under any status. A
  rejection with status 429 is still possible, and happens only when a policy check was
  answered with status 429 by the remote service, whose status the handler passes on.
\<close>

theorem dedicated_mode_leaves_pools:
  assumes mode: "DedicatedGateway cfg"
      and run: "DedicatedGatewayMiddleware e cfg r w = (out, w')"
  shows "ipLimiters w' = ipLimiters w \<and> cidLimiters w' = cidLimiters w \<and> heap w' = heap w \<and>
         (\<forall>k p rps. GetLimiter k p rps \<notin> set (new_calls w w')) \<and>
         (\<forall>a. LimiterAllow a \<notin> set (new_calls w w')) \<and>
         (\<forall>code. out \<noteq> http_Error ''Too many requests from this IP'' code) \<and>
         (\<forall>code. out \<noteq> http_Error ''Too many requests for this CID'' code) \<and>
         (\<forall>msg. out = http_Error msg 429 \<longrightarrow>
            (\<exists>req resp. ClientDo req \<in> set (new_calls w w') \<and>
               client_Do e req = Inr resp \<and> StatusCode resp = 429))"
proof (cases "prefix ''/ipfs/'' (URL_Path r)")
  case False
  with run show ?thesis by (auto simp: middleware_modes new_calls_def)
next
  case True
  with mode run have "dedicated_mode e cfg r w = (out, w')"
    by (simp add: middleware_modes)
  then show ?thesis
  proof (cases rule: dedicated_mode_cases)
    case bad_path
    then show ?thesis by (simp add: new_calls_def)
  next
    case (bad_hash tok)
    then show ?thesis by (simp add: new_calls_def)
  next
    case (moderated tok c st err)
    have frame: "ipLimiters w' = ipLimiters w \<and> cidLimiters w' = cidLimiters w \<and> heap w' = heap w \<and>
         (\<forall>k p rps. GetLimiter k p rps \<notin> set (new_calls w w')) \<and>
         (\<forall>a. LimiterAllow a \<notin> set (new_calls w w'))"
      using moderated by (auto simp: new_calls_def outbound_def split: option.splits)
    have "(\<forall>code. out \<noteq> http_Error ''Too many requests from this IP'' code) \<and>
         (\<forall>code. out \<noteq> http_Error ''Too many requests for this CID'' code) \<and>
         (\<forall>msg. out = http_Error msg 429 \<longrightarrow>
            (\<exists>req resp. ClientDo req \<in> set (new_calls w w') \<and>
               client_Do e req = Inr resp \<and> StatusCode resp = 429))"
    proof (cases "st = 429")
      case False
      with moderated checkDmca_not_rate_limit [of e "cid_String c" cfg w st err]
      show ?thesis by simp
    next
      case True
      with moderated verdict_429 [of e "cid_String c" cfg w err]
        checkDmca_not_rate_limit [of e "cid_String c" cfg w st err]
      show ?thesis
        by (auto simp: new_calls_def ClientDo_in_outbound)
    qed
    with frame show ?thesis by blast
  next
    case (no_access tok c st st' err)
    have frame: "ipLimiters w' = ipLimiters w \<and> cidLimiters w' = cidLimiters w \<and> heap w' = heap w \<and>
         (\<forall>k p rps. GetLimiter k p rps \<notin> set (new_calls w w')) \<and>
         (\<forall>a. LimiterAllow a \<notin> set (new_calls w w'))"
      using no_access by (auto simp: new_calls_def outbound_def split: option.splits)
    have "(\<forall>code. out \<noteq> http_Error ''Too many requests from this IP'' code) \<and>
         (\<forall>code. out \<noteq> http_Error ''Too many requests for this CID'' code) \<and>
         (\<forall>msg. out = http_Error msg 429 \<longrightarrow>
            (\<exists>req resp. ClientDo req \<in> set (new_calls w w') \<and>
               client_Do e req = Inr resp \<and> StatusCode resp = 429))"
    proof (cases "st' = 429")
      case False
      with no_access access_not_rate_limit [of e "cid_Hash_HexString c" cfg w st' err]
      show ?thesis by simp
    next
      case True
      with no_access access_verdict_429 [of e "cid_Hash_HexString c" cfg w err]
        access_not_rate_limit [of e "cid_Hash_HexString c" cfg w st' err]
      show ?thesis
        by (auto simp: new_calls_def ClientDo_in_outbound)
    qed
    with frame show ?thesis by blast
  next
    case (forwarded tok c st st')
    then show ?thesis by (auto simp: new_calls_def outbound_def split: option.splits)
  qed
qed

theorem dedicated_mode_leaves_pools_witness:
  "heap (snd (DedicatedGatewayMiddleware
     (collaborators frozen_bucket (answers 429 ''slow down''))
     (gateway_cfg True) (get_request ''/ipfs/QmYwAPJzv5CZsnA625s3Xf2nemtYgPpHdWEz79ojWnPbdG'')
     start_world)) = [] \<and>
   (\<exists>req resp.
      ClientDo req \<in> set (calls (snd (DedicatedGatewayMiddleware
        (collaborators frozen_bucket (answers 429 ''slow down''))
        (gateway_cfg True)
        (get_request ''/ipfs/QmYwAPJzv5CZsnA625s3Xf2nemtYgPpHdWEz79ojWnPbdG'') start_world))) \<and>
      client_Do (collaborators frozen_bucket (answers 429 ''slow down'')) req = Inr resp \<and>
      StatusCode resp = 429)"
proof -
  let ?e = "collaborators frozen_bucket (answers 429 ''slow down'')"
  let ?r = "get_request ''/ipfs/QmYwAPJzv5CZsnA625s3Xf2nemtYgPpHdWEz79ojWnPbdG''"
  obtain out w' where
    run: "DedicatedGatewayMiddleware ?e (gateway_cfg True) ?r start_world = (out, w')"
    by (cases "DedicatedGatewayMiddleware ?e (gateway_cfg True) ?r start_world")
  have mode: "DedicatedGateway (gateway_cfg True)"
    by (simp add: gateway_cfg_def)
  have out: "out = http_Error ''Something went wrong'' 429"
    using run by (simp add: answered_dedicated_run)
  have new: "new_calls start_world w' = calls w'"
    by (simp add: new_calls_def start_world_def)
  from dedicated_mode_leaves_pools [OF mode run] out
  have "heap w' = [] \<and>
        (\<exists>req resp. ClientDo req \<in> set (calls w') \<and> client_Do ?e req = Inr resp \<and>
           StatusCode resp = 429)"
    unfolding new by (simp add: start_world_def)
  with run show ?thesis by simp
qed

text \<open>
  In dedicated-gateway mode, with a moderation service that answers 429, the request is
  rejected with status 429.
\<close>

theorem dedicated_429_counterexample:
  "DedicatedGateway (gateway_cfg True) \<and>
   fst (DedicatedGatewayMiddleware (collaborators frozen_bucket (answers 429 ''slow down''))
     (gateway_cfg True) (get_request ''/ipfs/QmYwAPJzv5CZsnA625s3Xf2nemtYgPpHdWEz79ojWnPbdG'')
     start_world) = http_Error ''Something went wrong'' 429"
proof -
  have "DedicatedGateway (gateway_cfg True)"
    by (simp add: gateway_cfg_def)
  then show ?thesis
    by (simp add: answered_dedicated_run)
qed

end
